theory Spec2Isabelle
  imports Main
begin

section \<open>Strings\<close>

text \<open>
  The application's strings are modelled as \<^typ>\<open>string\<close>, holding the UTF-8 bytes
  of the Python string. \<open>space_points\<close> lists the code points for which Python's
  \<^verbatim>\<open>str.isspace\<close> holds: the ASCII controls 9 to 13 and 28 to 31, the space, NEL,
  the no-break space, the Ogham space mark, the spaces U+2000 to U+200A, the line and
  paragraph separators, the narrow no-break space, the medium mathematical space and
  the ideographic space.
\<close>

definition space_points :: "nat list" where
  "space_points =
     [0x09, 0x0A, 0x0B, 0x0C, 0x0D, 0x1C, 0x1D, 0x1E, 0x1F, 0x20, 0x85, 0xA0, 0x1680,
      0x2000, 0x2001, 0x2002, 0x2003, 0x2004, 0x2005, 0x2006, 0x2007, 0x2008, 0x2009,
      0x200A, 0x2028, 0x2029, 0x202F, 0x205F, 0x3000]"

definition isspace :: "nat \<Rightarrow> bool" where
  "isspace n = (n \<in> set space_points)"

text \<open>The UTF-8 bytes of a code point.\<close>

definition utf8 :: "nat \<Rightarrow> string" where
  "utf8 n =
     (if n < 0x80 then [char_of n]
      else if n < 0x800 then [char_of (0xC0 + n div 0x40), char_of (0x80 + n mod 0x40)]
      else if n < 0x10000
        then [char_of (0xE0 + n div 0x1000), char_of (0x80 + n div 0x40 mod 0x40),
              char_of (0x80 + n mod 0x40)]
      else [char_of (0xF0 + n div 0x40000), char_of (0x80 + n div 0x1000 mod 0x40),
            char_of (0x80 + n div 0x40 mod 0x40), char_of (0x80 + n mod 0x40)])"

definition space_seqs :: "string list" where
  "space_seqs = map utf8 space_points"

text \<open>
  \<open>strip_left ws s\<close> removes from the front of \<open>s\<close> one of the sequences \<open>ws\<close> after
  the other, as long as one of them is there.
\<close>

function strip_left :: "string list \<Rightarrow> string \<Rightarrow> string" where
  "strip_left ws s =
     (case find (\<lambda>w. w \<noteq> [] \<and> take (length w) s = w) ws of
        None \<Rightarrow> s
      | Some w \<Rightarrow> strip_left ws (drop (length w) s))"
  by pat_completeness auto
termination
proof (relation "measure (\<lambda>(ws, s). length s)")
  show "wf (measure (\<lambda>(ws, s). length s))" by simp
next
  fix ws :: "string list" and s w :: string
  assume "find (\<lambda>w. w \<noteq> [] \<and> take (length w) s = w) ws = Some w"
  then have w: "w \<noteq> []" and t: "take (length w) s = w"
    by (auto simp: find_Some_iff)
  from t have "length w = min (length s) (length w)"
    by (metis length_take)
  with w have "0 < length w \<and> length w \<le> length s"
    by (cases w) auto
  then have "length s - length w < length s" by arith
  then show "((ws, drop (length w) s), (ws, s)) \<in> measure (\<lambda>(ws, s). length s)"
    by simp
qed

declare strip_left.simps [simp del]

text \<open>
  \<^verbatim>\<open>s.strip()\<close>: the whitespace characters at the front and at the end removed.
  A whitespace character stands at an end of a string exactly when its UTF-8 bytes
  stand at that end of the string's bytes, so removing the encodings from the bytes
  removes the characters from the string.
\<close>

definition lstrip :: "string \<Rightarrow> string" where
  "lstrip s = strip_left space_seqs s"

definition rstrip :: "string \<Rightarrow> string" where
  "rstrip s = rev (strip_left (map rev space_seqs) (rev s))"

definition strip :: "string \<Rightarrow> string" where
  "strip s = rstrip (lstrip s)"

text \<open>
  \<^verbatim>\<open>s.split(d)\<close> for a one-character separator: the segments between the
  separators, empty segments kept, never the empty list.
\<close>

fun split :: "char \<Rightarrow> string \<Rightarrow> string list" where
  "split d [] = [[]]"
| "split d (c # cs) =
     (if c = d then [] # split d cs
      else (let ps = split d cs in (c # hd ps) # tl ps))"

section \<open>Exceptions\<close>

text \<open>
  The instances of \<^verbatim>\<open>Exception\<close> the handlers can meet: the \<^verbatim>\<open>ValueError\<close> of
  unpacking a list into three names, the \<^verbatim>\<open>AttributeError\<close> of reading a missing key
  of the session state, the \<^verbatim>\<open>AttributeError\<close> of reading an attribute of \<^verbatim>\<open>None\<close>,
  the \<^verbatim>\<open>TypeError\<close> of iterating over \<^verbatim>\<open>None\<close>, and whatever a remote call raises,
  kept with its message. Interruptions of the interpreter that are not instances of
  \<^verbatim>\<open>Exception\<close> are not part of the model.
\<close>

datatype exn =
    NotEnoughValues nat
  | TooManyValues
  | AttributeError string
  | NoneAttribute string
  | NoneNotIterable
  | RemoteError string

text \<open>\<open>q\<close> is the single quote.\<close>

definition q :: string where
  "q = [CHR 0x27]"

fun digit :: "nat \<Rightarrow> char" where
  "digit n = ''0123456789'' ! n"

fun show_nat :: "nat \<Rightarrow> string" where
  "show_nat n = (if n < 10 then [digit n] else show_nat (n div 10) @ [digit (n mod 10)])"

text \<open>\<^verbatim>\<open>str(e)\<close>, as the f-strings of the handlers print it.\<close>

fun str_exn :: "exn \<Rightarrow> string" where
  "str_exn (NotEnoughValues n) =
     ''not enough values to unpack (expected 3, got '' @ show_nat n @ '')''"
| "str_exn TooManyValues = ''too many values to unpack (expected 3)''"
| "str_exn (AttributeError k) = ''st.session_state has no attribute '' @ k"
| "str_exn (NoneAttribute a) =
     q @ ''NoneType'' @ q @ '' object has no attribute '' @ q @ a @ q"
| "str_exn NoneNotIterable = q @ ''NoneType'' @ q @ '' object is not iterable''"
| "str_exn (RemoteError m) = m"

section \<open>The remote platform\<close>

text \<open>
  The objects the SDK returns, with the attributes the application reads. The SDK is
  not part of the repository; its classes declare these attributes optional. The grants
  object and its list of assignments may be missing, which the application tests for.
  The privilege list of an assignment may be missing, and so may the privilege of an
  entry (the SDK has no member for a privilege name it does not know): the application
  reads both without a test. \<open>privilege_value p\<close> is the value of
  \<^verbatim>\<open>privilege.privilege\<close>, \<open>None\<close> when \<^verbatim>\<open>privilege.privilege\<close> is \<^verbatim>\<open>None\<close>.
\<close>

record volume_info =
  full_name :: string

record user =
  user_name :: string

record effective_privilege =
  privilege_value :: "string option"

record privilege_assignment =
  privileges :: "effective_privilege list option"

record permissions_list =
  privilege_assignments :: "privilege_assignment list option"

text \<open>
  The workspace client \<^verbatim>\<open>w\<close> and the SQL connector, as the answers they give in
  one run of the script: each call returns a value or raises. \<open>sql_connect\<close> answers
  \<^verbatim>\<open>get_connection\<close>, for a cached connection as for a new one.
\<close>

record remote =
  volumes_read :: "string \<Rightarrow> exn + volume_info"
  current_user_me :: "exn + user"
  grants_get_effective :: "string \<Rightarrow> string \<Rightarrow> exn + permissions_list option"
  files_upload :: "string \<Rightarrow> string \<Rightarrow> bool \<Rightarrow> exn + unit"
  sql_connect :: "string option \<Rightarrow> exn + unit"
  conn_cursor :: "exn + unit"
  cursor_execute :: "string \<Rightarrow> exn + unit"

text \<open>The calls a run makes to the platform, in the order it makes them.\<close>

datatype call =
    VolumesRead string
  | CurrentUserMe
  | GrantsGetEffective string string
  | FilesUpload string string bool
  | GetConnection "string option"
  | Cursor
  | Execute string

text \<open>
  A computation that may raise: the calls made so far, and a value or the exception.
\<close>

type_synonym 'a io = "call list \<times> (exn + 'a)"

definition ret :: "'a \<Rightarrow> 'a io" where
  "ret x = ([], Inr x)"

definition remote_call :: "call \<Rightarrow> exn + 'a \<Rightarrow> 'a io" where
  "remote_call c r = ([c], r)"

definition lift :: "exn + 'a \<Rightarrow> 'a io" where
  "lift r = ([], r)"

definition bind :: "'a io \<Rightarrow> ('a \<Rightarrow> 'b io) \<Rightarrow> 'b io" where
  "bind m f =
     (case m of
        (t, Inl e) \<Rightarrow> (t, Inl e)
      | (t, Inr x) \<Rightarrow> (case f x of (t', r) \<Rightarrow> (t @ t', r)))"

section \<open>check_upload_permissions\<close>

definition write_privileges :: "string list" where
  "write_privileges = [''ALL_PRIVILEGES'', ''WRITE_VOLUME'']"

text \<open>
  The two nested loops: \<open>Inr True\<close> when the \<^verbatim>\<open>return\<close> inside them is reached,
  \<open>Inr False\<close> when they run to their end, and the exception when an entry has no
  privilege to read the value of, or an assignment no list to iterate over.
\<close>

fun scan_privileges :: "effective_privilege list \<Rightarrow> exn + bool" where
  "scan_privileges [] = Inr False"
| "scan_privileges (privilege # rest) =
     (case privilege_value privilege of
        None \<Rightarrow> Inl (NoneAttribute ''value'')
      | Some v \<Rightarrow> if v \<in> set write_privileges then Inr True else scan_privileges rest)"

fun scan_assignments :: "privilege_assignment list \<Rightarrow> exn + bool" where
  "scan_assignments [] = Inr False"
| "scan_assignments (assignment # rest) =
     (case privileges assignment of
        None \<Rightarrow> Inl NoneNotIterable
      | Some ps \<Rightarrow>
          (case scan_privileges ps of
             Inl e \<Rightarrow> Inl e
           | Inr found \<Rightarrow> if found then Inr True else scan_assignments rest))"

text \<open>The body of the \<^verbatim>\<open>try\<close>.\<close>

definition check_body :: "remote \<Rightarrow> string \<Rightarrow> string io" where
  "check_body w volume_name =
     bind (remote_call (VolumesRead volume_name) (volumes_read w volume_name)) (\<lambda>volume.
     bind (remote_call CurrentUserMe (current_user_me w)) (\<lambda>current_user.
     bind (remote_call (GrantsGetEffective (full_name volume) (user_name current_user))
             (grants_get_effective w (full_name volume) (user_name current_user))) (\<lambda>grants.
     (let no_grants = ''Insufficient permissions: No grants found for ''
                        @ user_name current_user @ ''.''
      in case grants of
           None \<Rightarrow> ret no_grants
         | Some g \<Rightarrow>
             (case privilege_assignments g of
                None \<Rightarrow> ret no_grants
              | Some [] \<Rightarrow> ret no_grants
              | Some assignments \<Rightarrow>
                  bind (lift (scan_assignments assignments)) (\<lambda>found.
                  ret (if found then ''Volume and permissions validated''
                       else ''Insufficient permissions: Required privileges not found.'')))))))"

text \<open>The function: the \<^verbatim>\<open>except Exception\<close> turns every exception into a string.\<close>

definition check_upload_permissions :: "remote \<Rightarrow> string \<Rightarrow> call list \<times> string" where
  "check_upload_permissions w volume_name =
     (case check_body w volume_name of
        (t, Inr s) \<Rightarrow> (t, s)
      | (t, Inl e) \<Rightarrow> (t, ''Error: '' @ str_exn e))"

section \<open>create_table_from_volume_file\<close>

text \<open>
  The two statements, with the line breaks and the indentation of the f-strings.
  \<open>nl\<close> is the line feed followed by the eight spaces every continuation line
  starts with.
\<close>

definition nl :: string where
  "nl = CHR 0x0A # ''        ''"

definition query1 :: "string \<Rightarrow> string \<Rightarrow> string \<Rightarrow> string" where
  "query1 catalog schema table_name =
     nl @ ''CREATE TABLE IF NOT EXISTS '' @ catalog @ ''.'' @ schema @ ''.'' @ table_name
     @ nl @ ''USING DELTA;''
     @ nl"

definition query2 :: "string \<Rightarrow> string \<Rightarrow> string \<Rightarrow> string \<Rightarrow> string \<Rightarrow> string" where
  "query2 catalog schema volume_name file_name table_name =
     ''COPY INTO '' @ catalog @ ''.'' @ schema @ ''.'' @ table_name
     @ nl @ ''FROM '' @ q @ ''/Volumes/'' @ catalog @ ''/'' @ schema @ ''/'' @ volume_name
          @ ''/'' @ file_name @ q
     @ nl @ ''FILEFORMAT = CSV''
     @ nl @ ''FORMAT_OPTIONS ('' @ q @ ''header'' @ q @ '' = '' @ q @ ''true'' @ q @ '', ''
          @ q @ ''inferSchema'' @ q @ '' = '' @ q @ ''true'' @ q @ '')''
     @ nl @ ''COPY_OPTIONS ('' @ q @ ''mergeSchema'' @ q @ '' = '' @ q @ ''true'' @ q @ '');''
     @ nl"

text \<open>
  The function opens a cursor on the connection and executes the two statements; an
  exception of any of the three calls leaves the \<^verbatim>\<open>with\<close> block and propagates.
  The closing of the cursor when the block is left is not recorded among the calls.
\<close>

definition create_table_from_volume_file ::
  "string \<Rightarrow> string \<Rightarrow> string \<Rightarrow> string \<Rightarrow> string \<Rightarrow> remote \<Rightarrow> unit io" where
  "create_table_from_volume_file catalog schema volume_name file_name table_name conn =
     bind (remote_call Cursor (conn_cursor conn)) (\<lambda>cursor.
     bind (remote_call (Execute (query1 catalog schema table_name))
             (cursor_execute conn (query1 catalog schema table_name))) (\<lambda>_.
     remote_call (Execute (query2 catalog schema volume_name file_name table_name))
       (cursor_execute conn (query2 catalog schema volume_name file_name table_name))))"

section \<open>The session state and the widgets\<close>

record details =
  d_catalog :: string
  d_schema :: string
  d_volume_name :: string
  d_file_name :: string
  d_volume_file_path :: string

text \<open>\<^verbatim>\<open>st.session_state\<close>: a key is absent (\<open>None\<close>) until the script sets it.\<close>

record session_state =
  volume_check_success :: "bool option"
  file_upload :: "bool option"
  upload_details :: "details option"

definition initial_state :: session_state where
  "initial_state = \<lparr>volume_check_success = None, file_upload = None, upload_details = None\<rparr>"

record uploaded_file =
  uf_name :: string
  uf_bytes :: string

text \<open>The values the widgets return in one run of the script.\<close>

record widgets =
  upload_volume_path :: string
  check_button :: bool
  uploaded_file :: "uploaded_file option"
  upload_button :: bool
  table_name_input :: string
  create_button :: bool

record config =
  databricks_host :: "string option"
  http_path :: "string option"

text \<open>What a run renders, in order. Icons are left out.\<close>

datatype ui =
    TextInput
  | CheckButton
  | FileUploader
  | UploadButton string
  | TableNameInput
  | CreateTableButton
  | StSuccess string
  | StError string

text \<open>An f-string prints \<^verbatim>\<open>None\<close> for an unset environment variable.\<close>

fun fmt_opt :: "string option \<Rightarrow> string" where
  "fmt_opt None = ''None''"
| "fmt_opt (Some s) = s"

section \<open>The handlers of the three buttons\<close>

definition check_handler ::
  "remote \<Rightarrow> widgets \<Rightarrow> session_state \<Rightarrow> session_state \<times> call list \<times> ui list" where
  "check_handler w inp s =
     (case check_upload_permissions w (strip (upload_volume_path inp)) of
        (t, permission_result) \<Rightarrow>
          if permission_result = ''Volume and permissions validated''
          then (s\<lparr>volume_check_success := Some True\<rparr>, t,
                [StSuccess ''Volume and permissions validated''])
          else (s\<lparr>volume_check_success := Some False\<rparr>, t, [StError permission_result]))"

text \<open>\<^verbatim>\<open>catalog, schema, volume_name = parts\<close>\<close>

definition unpack3 :: "string list \<Rightarrow> exn + (string \<times> string \<times> string)" where
  "unpack3 parts =
     (case parts of
        [a, b, c] \<Rightarrow> Inr (a, b, c)
      | _ \<Rightarrow> if length parts < 3 then Inl (NotEnoughValues (length parts))
             else Inl TooManyValues)"

definition volume_file_path :: "string \<Rightarrow> string \<Rightarrow> string \<Rightarrow> string \<Rightarrow> string" where
  "volume_file_path catalog schema volume_name file_name =
     ''/Volumes/'' @ catalog @ ''/'' @ schema @ ''/'' @ volume_name @ ''/'' @ file_name"

definition upload_body ::
  "config \<Rightarrow> remote \<Rightarrow> widgets \<Rightarrow> uploaded_file \<Rightarrow> session_state
     \<Rightarrow> (session_state \<times> ui list) io" where
  "upload_body cfg w inp uf s =
     (let file_bytes = uf_bytes uf;
          file_name = uf_name uf;
          parts = split (CHR ''.'') (strip (upload_volume_path inp))
      in bind (lift (unpack3 parts)) (\<lambda>(catalog, schema, volume_name).
         bind (remote_call
                 (FilesUpload (volume_file_path catalog schema volume_name file_name)
                    file_bytes True)
                 (files_upload w (volume_file_path catalog schema volume_name file_name)
                    file_bytes True)) (\<lambda>_.
         let volume_url = ''https://'' @ fmt_opt (databricks_host cfg)
                          @ ''/explore/data/volumes/'' @ catalog @ ''/'' @ schema
                          @ ''/'' @ volume_name
         in ret (s\<lparr>file_upload := Some True,
                    upload_details := Some
                      \<lparr>d_catalog = catalog, d_schema = schema,
                       d_volume_name = volume_name, d_file_name = file_name,
                       d_volume_file_path =
                         volume_file_path catalog schema volume_name file_name\<rparr>\<rparr>,
                 [StSuccess (''File '' @ q @ file_name @ q @ '' uploaded to **''
                             @ upload_volume_path inp @ ''**. [Go to volume]('' @ volume_url
                             @ '')'')]))))"

definition upload_handler ::
  "config \<Rightarrow> remote \<Rightarrow> widgets \<Rightarrow> uploaded_file \<Rightarrow> session_state
     \<Rightarrow> session_state \<times> call list \<times> ui list" where
  "upload_handler cfg w inp uf s =
     (case upload_body cfg w inp uf s of
        (t, Inr (s', u)) \<Rightarrow> (s', t, u)
      | (t, Inl e) \<Rightarrow>
          (s\<lparr>file_upload := Some False\<rparr>, t,
           [StError (''Error uploading file: '' @ str_exn e)]))"

text \<open>The check mark that ends the success message, in UTF-8.\<close>

definition check_mark :: string where
  "check_mark = [CHR 0xE2, CHR 0x9C, CHR 0x85]"

definition create_body :: "config \<Rightarrow> remote \<Rightarrow> widgets \<Rightarrow> session_state \<Rightarrow> ui list io" where
  "create_body cfg w inp s =
     bind (remote_call (GetConnection (http_path cfg)) (sql_connect w (http_path cfg))) (\<lambda>conn.
     bind (lift (case upload_details s of
                   None \<Rightarrow> Inl (AttributeError ''upload_details'')
                 | Some d \<Rightarrow> Inr d)) (\<lambda>details.
     bind (create_table_from_volume_file (d_catalog details) (d_schema details)
             (d_volume_name details) (d_file_name details)
             (strip (table_name_input inp)) w) (\<lambda>_.
     ret [StSuccess (''Table `'' @ strip (table_name_input inp)
                     @ ''` created successfully! '' @ check_mark)])))"

definition create_handler ::
  "config \<Rightarrow> remote \<Rightarrow> widgets \<Rightarrow> session_state \<Rightarrow> call list \<times> ui list" where
  "create_handler cfg w inp s =
     (case create_body cfg w inp s of
        (t, Inr u) \<Rightarrow> (t, u)
      | (t, Inl e) \<Rightarrow> (t, [StError (''Error creating table: '' @ str_exn e)]))"

section \<open>One run of the script, and a session\<close>

text \<open>
  The table section, reached when the permission gate is open: the first run that gets
  here initialises \<^verbatim>\<open>file_upload\<close>; otherwise the table-creation widgets are rendered
  when it is true, and the button runs the handler.
\<close>

definition table_section ::
  "config \<Rightarrow> remote \<Rightarrow> widgets \<Rightarrow> session_state \<Rightarrow> session_state \<times> call list \<times> ui list" where
  "table_section cfg w inp s =
     (case file_upload s of
        None \<Rightarrow> (s\<lparr>file_upload := Some False\<rparr>, [], [])
      | Some True \<Rightarrow>
          (if create_button inp
           then (case create_handler cfg w inp s of
                   (t, u) \<Rightarrow> (s, t, [TableNameInput, CreateTableButton] @ u))
           else (s, [], [TableNameInput, CreateTableButton]))
      | Some False \<Rightarrow> (s, [], []))"

text \<open>
  The upload part, reached when the permission gate is open: the file picker, the
  upload button when a file is picked, and its handler when it is pressed.
\<close>

definition upload_part ::
  "config \<Rightarrow> remote \<Rightarrow> widgets \<Rightarrow> session_state \<Rightarrow> session_state \<times> call list \<times> ui list" where
  "upload_part cfg w inp s =
     (case uploaded_file inp of
        None \<Rightarrow> (s, [], [FileUploader])
      | Some uf \<Rightarrow>
          (if upload_button inp
           then (case upload_handler cfg w inp uf s of
                   (s', t, u) \<Rightarrow>
                     (s', t, [FileUploader,
                              UploadButton (''Upload file to '' @ upload_volume_path inp)] @ u))
           else (s, [], [FileUploader,
                         UploadButton (''Upload file to '' @ upload_volume_path inp)])))"

text \<open>Everything under the permission gate: the upload part, then the table section.\<close>

definition upload_section ::
  "config \<Rightarrow> remote \<Rightarrow> widgets \<Rightarrow> session_state \<Rightarrow> session_state \<times> call list \<times> ui list" where
  "upload_section cfg w inp s =
     (case upload_part cfg w inp s of
        (s', t, u) \<Rightarrow>
          (case table_section cfg w inp s' of
             (s'', t', u') \<Rightarrow> (s'', t @ t', u @ u')))"

text \<open>The top of the script: the flag is initialised when the key is absent.\<close>

definition init_flag :: "session_state \<Rightarrow> session_state" where
  "init_flag s =
     (if volume_check_success s = None then s\<lparr>volume_check_success := Some False\<rparr> else s)"

text \<open>The text input and the check button, with its handler when it is pressed.\<close>

definition check_section ::
  "remote \<Rightarrow> widgets \<Rightarrow> session_state \<Rightarrow> session_state \<times> call list \<times> ui list" where
  "check_section w inp s =
     (if check_button inp
      then (case check_handler w inp s of
              (s', t, u) \<Rightarrow> (s', t, [TextInput, CheckButton] @ u))
      else (s, [], [TextInput, CheckButton]))"

text \<open>
  One run of the script from top to bottom: the flag is initialised, the check button
  runs its handler, and the rest is rendered only when the flag is true.
\<close>

definition rerun ::
  "config \<Rightarrow> remote \<Rightarrow> widgets \<Rightarrow> session_state \<Rightarrow> session_state \<times> call list \<times> ui list" where
  "rerun cfg w inp s =
     (case check_section w inp (init_flag s) of
        (s2, t, u) \<Rightarrow>
          (if volume_check_success s2 = Some True
           then (case upload_section cfg w inp s2 of
                   (s3, t', u') \<Rightarrow> (s3, t @ t', u @ u'))
           else (s2, t, u)))"

text \<open>
  A session: the runs of the script one after the other, each with the widget values
  and the platform's answers of its moment, the session state handed on. The result
  lists, for every run, the state it leaves, the calls it made and what it rendered.
\<close>

fun session ::
  "config \<Rightarrow> session_state \<Rightarrow> (remote \<times> widgets) list
     \<Rightarrow> (session_state \<times> call list \<times> ui list) list" where
  "session cfg s [] = []"
| "session cfg s ((w, inp) # rest) =
     (let r = rerun cfg w inp s in r # session cfg (fst r) rest)"

section \<open>Notions of the specification\<close>

definition validated :: string where
  "validated = ''Volume and permissions validated''"

text \<open>
  The assignments the platform reports for the current principal on a volume; none
  when a lookup raises or reports no grants.
\<close>

definition reported_assignments :: "remote \<Rightarrow> string \<Rightarrow> privilege_assignment list" where
  "reported_assignments w v =
     (case volumes_read w v of
        Inl _ \<Rightarrow> []
      | Inr volume \<Rightarrow>
          (case current_user_me w of
             Inl _ \<Rightarrow> []
           | Inr current_user \<Rightarrow>
               (case grants_get_effective w (full_name volume) (user_name current_user) of
                  Inr (Some g) \<Rightarrow>
                    (case privilege_assignments g of
                       Some assignments \<Rightarrow> assignments
                     | None \<Rightarrow> [])
                | _ \<Rightarrow> [])))"

text \<open>The effective grants: every privilege of every reported assignment.\<close>

definition effective_privileges :: "remote \<Rightarrow> string \<Rightarrow> effective_privilege list" where
  "effective_privileges w v =
     concat (map (\<lambda>a. case privileges a of None \<Rightarrow> [] | Some ps \<Rightarrow> ps)
               (reported_assignments w v))"

text \<open>The grants contain a privilege whose value is ALL_PRIVILEGES or WRITE_VOLUME.\<close>

definition holds_write_privilege :: "remote \<Rightarrow> string \<Rightarrow> bool" where
  "holds_write_privilege w v =
     (\<exists>p \<in> set (effective_privileges w v).
        privilege_value p = Some ''ALL_PRIVILEGES'' \<or> privilege_value p = Some ''WRITE_VOLUME'')"

text \<open>
  The reported grants are complete: every assignment carries its privilege list and
  every privilege its value.
\<close>

definition complete_grants :: "remote \<Rightarrow> string \<Rightarrow> bool" where
  "complete_grants w v =
     list_all (\<lambda>a. case privileges a of
                      None \<Rightarrow> False
                    | Some ps \<Rightarrow> list_all (\<lambda>p. privilege_value p \<noteq> None) ps)
       (reported_assignments w v)"

text \<open>No grants: the answer is missing, or its list of assignments is missing or empty.\<close>

fun no_grants_found :: "permissions_list option \<Rightarrow> bool" where
  "no_grants_found None = True"
| "no_grants_found (Some g) =
     (case privilege_assignments g of None \<Rightarrow> True | Some as \<Rightarrow> as = [])"

text \<open>The calls of a run that transfer a file, and those that touch the warehouse.\<close>

fun is_upload :: "call \<Rightarrow> bool" where
  "is_upload (FilesUpload _ _ _) = True"
| "is_upload _ = False"

fun is_sql :: "call \<Rightarrow> bool" where
  "is_sql (GetConnection _) = True"
| "is_sql Cursor = True"
| "is_sql (Execute _) = True"
| "is_sql _ = False"

text \<open>The SQL statements among the calls, in the order they were issued.\<close>

fun statements :: "call list \<Rightarrow> string list" where
  "statements [] = []"
| "statements (Execute s # t) = s # statements t"
| "statements (_ # t) = statements t"

fun is_upload_widget :: "ui \<Rightarrow> bool" where
  "is_upload_widget FileUploader = True"
| "is_upload_widget (UploadButton _) = True"
| "is_upload_widget _ = False"

fun is_table_widget :: "ui \<Rightarrow> bool" where
  "is_table_widget TableNameInput = True"
| "is_table_widget CreateTableButton = True"
| "is_table_widget _ = False"

text \<open>A run reaches the upload step: it renders an upload widget or transfers a file.\<close>

definition reaches_upload :: "call list \<Rightarrow> ui list \<Rightarrow> bool" where
  "reaches_upload t u = (list_ex is_upload_widget u \<or> list_ex is_upload t)"

text \<open>
  A run reaches table creation: it renders a table-creation widget or touches the
  warehouse.
\<close>

definition reaches_table_creation :: "call list \<Rightarrow> ui list \<Rightarrow> bool" where
  "reaches_table_creation t u = (list_ex is_table_widget u \<or> list_ex is_sql t)"

text \<open>A string with the characters \<open>ps\<close> put in front of it and \<open>qs\<close> behind it.\<close>

definition pad :: "nat list \<Rightarrow> string \<Rightarrow> nat list \<Rightarrow> string" where
  "pad ps x qs = concat (map utf8 ps) @ x @ concat (map utf8 qs)"

text \<open>The segments of the identifier the upload handler works with.\<close>

definition segments :: "widgets \<Rightarrow> string list" where
  "segments inp = split (CHR ''.'') (strip (upload_volume_path inp))"

text \<open>
  The run completes a transfer: the upload button is pressed on a picked file, the
  identifier has three segments, and \<^verbatim>\<open>w.files.upload\<close> returns.
\<close>

definition upload_completes :: "remote \<Rightarrow> widgets \<Rightarrow> bool" where
  "upload_completes w inp =
     (case uploaded_file inp of
        None \<Rightarrow> False
      | Some uf \<Rightarrow>
          upload_button inp \<and>
          (case segments inp of
             [c, sch, v] \<Rightarrow>
               files_upload w (volume_file_path c sch v (uf_name uf)) (uf_bytes uf) True = Inr ()
           | _ \<Rightarrow> False))"

text \<open>The upload details that belong to the picked file and the identifier of a run.\<close>

definition details_of :: "widgets \<Rightarrow> details option" where
  "details_of inp =
     (case uploaded_file inp of
        None \<Rightarrow> None
      | Some uf \<Rightarrow>
          (case segments inp of
             [c, sch, v] \<Rightarrow>
               Some \<lparr>d_catalog = c, d_schema = sch, d_volume_name = v,
                     d_file_name = uf_name uf,
                     d_volume_file_path = volume_file_path c sch v (uf_name uf)\<rparr>
           | _ \<Rightarrow> None))"

section \<open>A sample platform\<close>

text \<open>
  A platform on which every call succeeds and the principal \<open>app\<close> holds the given
  privileges, in one assignment, on every volume.
\<close>

definition sample_remote :: "string list \<Rightarrow> remote" where
  "sample_remote privs =
     \<lparr>volumes_read = (\<lambda>n. Inr \<lparr>full_name = n\<rparr>),
      current_user_me = Inr \<lparr>user_name = ''app''\<rparr>,
      grants_get_effective = (\<lambda>f p. Inr (Some
        \<lparr>privilege_assignments =
           Some [\<lparr>privileges = Some (map (\<lambda>v. \<lparr>privilege_value = Some v\<rparr>) privs)\<rparr>]\<rparr>)),
      files_upload = (\<lambda>p b ov. Inr ()),
      sql_connect = (\<lambda>h. Inr ()),
      conn_cursor = Inr (),
      cursor_execute = (\<lambda>s. Inr ())\<rparr>"

definition sample_config :: config where
  "sample_config =
     \<lparr>databricks_host = Some ''adb.example.net'', http_path = Some ''/sql/1.0/warehouses/abc''\<rparr>"

definition sample_file :: uploaded_file where
  "sample_file = \<lparr>uf_name = ''data.csv'', uf_bytes = ''id,name''\<rparr>"

text \<open>The widget values of a run in which nothing is pressed, and of the three presses.\<close>

definition idle :: "string \<Rightarrow> widgets" where
  "idle path =
     \<lparr>upload_volume_path = path, check_button = False, uploaded_file = None,
      upload_button = False, table_name_input = [], create_button = False\<rparr>"

definition press_check :: "string \<Rightarrow> widgets" where
  "press_check path = (idle path)\<lparr>check_button := True\<rparr>"

definition press_upload :: "string \<Rightarrow> widgets" where
  "press_upload path = (idle path)\<lparr>uploaded_file := Some sample_file, upload_button := True\<rparr>"

definition press_create :: "string \<Rightarrow> string \<Rightarrow> widgets" where
  "press_create path table =
     (idle path)\<lparr>uploaded_file := Some sample_file, table_name_input := table,
                 create_button := True\<rparr>"

text \<open>Platforms on which the transfer, or the bulk load alone, is refused.\<close>

fun refuse :: "string \<Rightarrow> string \<Rightarrow> bool \<Rightarrow> exn + unit" where
  "refuse p b ov = Inl (RemoteError ''transfer refused'')"

definition refusing_upload :: remote where
  "refusing_upload = (sample_remote [''WRITE_VOLUME''])\<lparr>files_upload := refuse\<rparr>"

fun refuse_copy :: "string \<Rightarrow> exn + unit" where
  "refuse_copy s = (if take 4 s = ''COPY'' then Inl (RemoteError ''load failed'') else Inr ())"

definition refusing_copy :: remote where
  "refusing_copy = (sample_remote [''WRITE_VOLUME''])\<lparr>cursor_execute := refuse_copy\<rparr>"

fun refuse_all :: "string \<Rightarrow> exn + unit" where
  "refuse_all s = Inl (RemoteError ''load failed'')"

definition refusing_sql :: remote where
  "refusing_sql = (sample_remote [''WRITE_VOLUME''])\<lparr>cursor_execute := refuse_all\<rparr>"

text \<open>The session state after a passed check and an upload of the sample file.\<close>

definition uploaded_state :: session_state where
  "uploaded_state =
     \<lparr>volume_check_success = Some True, file_upload = Some True,
      upload_details = Some
        \<lparr>d_catalog = ''main'', d_schema = ''marketing'', d_volume_name = ''raw_files'',
         d_file_name = ''data.csv'',
         d_volume_file_path = ''/Volumes/main/marketing/raw_files/data.csv''\<rparr>\<rparr>"

text \<open>
  Sample sessions on one identifier: a passed check and an upload; the same followed by
  a second check; and the same followed by a press of the table button.
\<close>

definition sample_path :: string where
  "sample_path = ''main.marketing.raw_files''"

definition check_then_upload :: "(remote \<times> widgets) list" where
  "check_then_upload =
     [(sample_remote [''WRITE_VOLUME''], press_check sample_path),
      (sample_remote [''WRITE_VOLUME''], press_upload sample_path)]"

definition check_upload_check :: "(remote \<times> widgets) list" where
  "check_upload_check =
     check_then_upload @ [(sample_remote [''WRITE_VOLUME''], press_check sample_path)]"

definition check_upload_create :: "(remote \<times> widgets) list" where
  "check_upload_create =
     check_then_upload
     @ [(sample_remote [''WRITE_VOLUME''], press_create sample_path ''test_table'')]"







section \<open>Stripping whitespace\<close>

lemma space_seqs_eq:
  "space_seqs =
     [[CHR 0x09], [CHR 0x0A], [CHR 0x0B], [CHR 0x0C], [CHR 0x0D],
      [CHR 0x1C], [CHR 0x1D], [CHR 0x1E], [CHR 0x1F], [CHR 0x20],
      [CHR 0xC2, CHR 0x85], [CHR 0xC2, CHR 0xA0], [CHR 0xE1, CHR 0x9A, CHR 0x80],
      [CHR 0xE2, CHR 0x80, CHR 0x80], [CHR 0xE2, CHR 0x80, CHR 0x81],
      [CHR 0xE2, CHR 0x80, CHR 0x82], [CHR 0xE2, CHR 0x80, CHR 0x83],
      [CHR 0xE2, CHR 0x80, CHR 0x84], [CHR 0xE2, CHR 0x80, CHR 0x85],
      [CHR 0xE2, CHR 0x80, CHR 0x86], [CHR 0xE2, CHR 0x80, CHR 0x87],
      [CHR 0xE2, CHR 0x80, CHR 0x88], [CHR 0xE2, CHR 0x80, CHR 0x89],
      [CHR 0xE2, CHR 0x80, CHR 0x8A], [CHR 0xE2, CHR 0x80, CHR 0xA8],
      [CHR 0xE2, CHR 0x80, CHR 0xA9], [CHR 0xE2, CHR 0x80, CHR 0xAF],
      [CHR 0xE2, CHR 0x81, CHR 0x9F], [CHR 0xE3, CHR 0x80, CHR 0x80]]"
  by (simp add: space_seqs_def space_points_def utf8_def char_of_def bit_Suc_0_iff)

text \<open>The facts that evaluate \<open>strip\<close> on a given string.\<close>

lemmas strip_eval = strip_def lstrip_def rstrip_def strip_left.simps space_seqs_eq

lemma space_seqs_nonempty: "[] \<notin> set space_seqs"
  by (simp add: space_seqs_eq)

text \<open>
  No encoding of a whitespace character starts another one, read forwards or backwards,
  and none has inside it a byte that starts one.
\<close>

lemma space_seqs_prefix_free:
  "\<forall>a\<in>set space_seqs. \<forall>b\<in>set space_seqs. take (length a) b = a \<longrightarrow> a = b"
  by (simp add: space_seqs_eq)

lemma space_seqs_rev_prefix_free:
  "\<forall>a\<in>set (map rev space_seqs). \<forall>b\<in>set (map rev space_seqs).
     take (length a) b = a \<longrightarrow> a = b"
  by (simp add: space_seqs_eq)

lemma space_seqs_no_straddle:
  "\<forall>a\<in>set space_seqs. \<forall>b\<in>set space_seqs. hd b \<notin> set (tl a)"
  by (simp add: space_seqs_eq)

text \<open>Stripping a list of sequences off the front.\<close>

lemma strip_left_none:
  "\<forall>w\<in>set ws. w = [] \<or> take (length w) s \<noteq> w \<Longrightarrow> strip_left ws s = s"
proof -
  assume "\<forall>w\<in>set ws. w = [] \<or> take (length w) s \<noteq> w"
  then have "find (\<lambda>w. w \<noteq> [] \<and> take (length w) s = w) ws = None"
    by (auto simp: find_None_iff)
  then show ?thesis by (subst strip_left.simps) simp
qed

lemma strip_left_Nil: "strip_left ws [] = []"
  by (rule strip_left_none) auto

lemma strip_left_step:
  assumes "find (\<lambda>w. w \<noteq> [] \<and> take (length w) s = w) ws = Some w"
  shows "strip_left ws s = strip_left ws (drop (length w) s)"
  using assms by (subst strip_left.simps) simp

lemma comparable_prefixes:
  assumes "take (length a) s = a" and "take (length b) s = b" and "length a \<le> length b"
  shows "take (length a) b = a"
proof -
  have "take (length a) b = take (length a) (take (length b) s)" using assms(2) by simp
  also have "\<dots> = take (length a) s" using assms(3) by (simp add: min_def)
  finally show ?thesis using assms(1) by simp
qed

lemma strip_left_one:
  assumes pf: "\<forall>a\<in>set ws. \<forall>b\<in>set ws. take (length a) b = a \<longrightarrow> a = b"
    and e: "e \<in> set ws" "e \<noteq> []"
  shows "strip_left ws (e @ s) = strip_left ws s"
proof -
  let ?P = "\<lambda>w. w \<noteq> [] \<and> take (length w) (e @ s) = w"
  have "?P e" using e by simp
  with e(1) obtain w where f: "find ?P ws = Some w"
    by (cases "find ?P ws") (auto simp: find_None_iff)
  then have w: "w \<in> set ws" "w \<noteq> []" "take (length w) (e @ s) = w"
    by (auto simp: find_Some_iff)
  have pe: "take (length e) (e @ s) = e" by simp
  have "w = e"
  proof (cases "length w \<le> length e")
    case True
    from comparable_prefixes[OF w(3) pe True] pf w(1) e(1) show ?thesis by blast
  next
    case False
    then have "length e \<le> length w" by simp
    from comparable_prefixes[OF pe w(3) this] pf w(1) e(1) show ?thesis by blast
  qed
  with f show ?thesis by (subst strip_left.simps) simp
qed

lemma strip_left_concat:
  assumes pf: "\<forall>a\<in>set ws. \<forall>b\<in>set ws. take (length a) b = a \<longrightarrow> a = b"
    and ne: "[] \<notin> set ws" and es: "set es \<subseteq> set ws"
  shows "strip_left ws (concat es @ s) = strip_left ws s"
  using es
proof (induction es)
  case Nil
  then show ?case by simp
next
  case (Cons e es)
  then have "e \<in> set ws" "e \<noteq> []" using ne by auto
  from strip_left_one[OF pf this, of "concat es @ s"] Cons show ?case by simp
qed

lemma no_straddle:
  assumes ns: "\<forall>a\<in>set ws. \<forall>b\<in>set ws. hd b \<notin> set (tl a)"
    and ne: "[] \<notin> set ws" and es: "set es \<subseteq> set ws"
    and y: "y \<noteq> []" "\<forall>w\<in>set ws. w = [] \<or> take (length w) y \<noteq> w"
  shows "\<forall>w\<in>set ws. w = [] \<or> take (length w) (y @ concat es) \<noteq> w"
proof (intro ballI)
  fix w assume w: "w \<in> set ws"
  show "w = [] \<or> take (length w) (y @ concat es) \<noteq> w"
  proof (rule ccontr)
    assume "\<not> (w = [] \<or> take (length w) (y @ concat es) \<noteq> w)"
    then have wn: "w \<noteq> []" and t: "take (length w) (y @ concat es) = w" by auto
    from y(2) w wn have nt: "take (length w) y \<noteq> w" by blast
    have long: "length y < length w"
    proof (rule ccontr)
      assume "\<not> length y < length w"
      with t have "take (length w) y = w" by simp
      with nt show False by simp
    qed
    then have weq: "w = y @ take (length w - length y) (concat es)"
      using t by simp
    let ?z = "take (length w - length y) (concat es)"
    have zlen: "length ?z = length w - length y"
      using weq by (metis add_diff_cancel_left' length_append)
    with long have "0 < length ?z" by (simp only: zero_less_diff)
    then have zne: "?z \<noteq> []" by (metis length_greater_0_conv)
    then have "concat es \<noteq> []" by (metis take_Nil)
    then obtain e es' where ees: "es = e # es'" by (cases es) auto
    with es ne have e: "e \<in> set ws" "e \<noteq> []" by auto
    have "hd ?z = hd (concat es)"
      using zne by (metis hd_take length_greater_0_conv zlen long zero_less_diff)
    also have "\<dots> = hd e" using ees e(2) by simp
    finally have hz: "hd ?z = hd e" .
    have "tl w = tl y @ ?z" using weq y(1) by (metis tl_append2)
    moreover have "hd ?z \<in> set ?z" using zne by (rule hd_in_set)
    ultimately have "hd ?z \<in> set (tl w)" by (metis UnCI set_append)
    with hz ns w e(1) show False by auto
  qed
qed

lemma strip_left_append:
  assumes pf: "\<forall>a\<in>set ws. \<forall>b\<in>set ws. take (length a) b = a \<longrightarrow> a = b"
    and ns: "\<forall>a\<in>set ws. \<forall>b\<in>set ws. hd b \<notin> set (tl a)"
    and ne: "[] \<notin> set ws" and es: "set es \<subseteq> set ws"
  shows "strip_left ws (x @ concat es) =
           (if strip_left ws x = [] then [] else strip_left ws x @ concat es)"
  using pf ns ne es
proof (induction ws x rule: strip_left.induct)
  case (1 ws s)
  note pf = "1.prems"(1) and ns = "1.prems"(2) and ne = "1.prems"(3) and es = "1.prems"(4)
  show ?case
  proof (cases "find (\<lambda>w. w \<noteq> [] \<and> take (length w) s = w) ws")
    case None
    then have nos: "\<forall>w\<in>set ws. w = [] \<or> take (length w) s \<noteq> w"
      by (auto simp: find_None_iff)
    then have ss: "strip_left ws s = s" by (rule strip_left_none)
    show ?thesis
    proof (cases "s = []")
      case True
      have "strip_left ws (concat es @ []) = strip_left ws []"
        by (rule strip_left_concat[OF pf ne es])
      then show ?thesis using True by (simp add: strip_left_Nil)
    next
      case False
      from no_straddle[OF ns ne es False nos]
      have "strip_left ws (s @ concat es) = s @ concat es" by (rule strip_left_none)
      with ss False show ?thesis by simp
    qed
  next
    case (Some w)
    then have w: "w \<in> set ws" "w \<noteq> []" "take (length w) s = w"
      by (auto simp: find_Some_iff)
    have s: "s = w @ drop (length w) s"
      using w(3) by (metis append_take_drop_id)
    have a: "strip_left ws s = strip_left ws (drop (length w) s)"
      using Some by (rule strip_left_step)
    have "strip_left ws (w @ (drop (length w) s @ concat es))
            = strip_left ws (drop (length w) s @ concat es)"
      by (rule strip_left_one[OF pf w(1,2)])
    then have b: "strip_left ws (s @ concat es) = strip_left ws (drop (length w) s @ concat es)"
      using s by (metis append_assoc)
    from "1.IH"[OF Some pf ns ne es] a b show ?thesis by simp
  qed
qed

lemma isspace_seq: "isspace p \<Longrightarrow> utf8 p \<in> set space_seqs"
  by (simp add: isspace_def space_seqs_def)

text \<open>Whitespace added at both ends is stripped away with the whitespace already there.\<close>

lemma strip_pad_seqs:
  assumes ps: "set ps \<subseteq> set space_seqs" and qs: "set qs \<subseteq> set space_seqs"
  shows "strip (concat ps @ x @ concat qs) = strip x"
proof -
  have l1: "lstrip (concat ps @ x @ concat qs) = lstrip (x @ concat qs)"
    unfolding lstrip_def
    by (rule strip_left_concat[OF space_seqs_prefix_free space_seqs_nonempty ps])
  have l2: "lstrip (x @ concat qs) = (if lstrip x = [] then [] else lstrip x @ concat qs)"
    unfolding lstrip_def
    by (rule strip_left_append[OF space_seqs_prefix_free space_seqs_no_straddle
          space_seqs_nonempty qs])
  show ?thesis
  proof (cases "lstrip x = []")
    case True
    with l1 l2 show ?thesis by (simp add: strip_def)
  next
    case False
    have ne: "[] \<notin> set (map rev space_seqs)"
      using space_seqs_nonempty by auto
    have sub: "set (map rev (rev qs)) \<subseteq> set (map rev space_seqs)"
      using qs by auto
    have "rev (lstrip x @ concat qs) = concat (map rev (rev qs)) @ rev (lstrip x)"
      by (simp add: rev_concat)
    then have "rstrip (lstrip x @ concat qs) = rstrip (lstrip x)"
      unfolding rstrip_def
      using strip_left_concat[OF space_seqs_rev_prefix_free ne sub, of "rev (lstrip x)"]
      by simp
    with l1 l2 False show ?thesis by (simp add: strip_def)
  qed
qed

lemma strip_pad:
  assumes "\<forall>p \<in> set ps \<union> set qs. isspace p"
  shows "strip (concat (map utf8 ps) @ x @ concat (map utf8 qs)) = strip x"
  using assms by (intro strip_pad_seqs) (auto simp: isspace_seq)

section \<open>The permission check\<close>

lemma scan_privileges_found:
  "scan_privileges ps = Inr True \<Longrightarrow>
   \<exists>p \<in> set ps. privilege_value p = Some ''ALL_PRIVILEGES''
                \<or> privilege_value p = Some ''WRITE_VOLUME''"
  by (induction ps) (auto simp: write_privileges_def split: option.splits if_splits)

lemma scan_privileges_complete:
  "list_all (\<lambda>p. privilege_value p \<noteq> None) ps \<Longrightarrow>
   scan_privileges ps =
     Inr (\<exists>p \<in> set ps. privilege_value p = Some ''ALL_PRIVILEGES''
                      \<or> privilege_value p = Some ''WRITE_VOLUME'')"
  by (induction ps) (auto simp: write_privileges_def split: option.splits)

lemma scan_assignments_found:
  "scan_assignments as = Inr True \<Longrightarrow>
   \<exists>p \<in> set (concat (map (\<lambda>a. case privileges a of None \<Rightarrow> [] | Some ps \<Rightarrow> ps) as)).
      privilege_value p = Some ''ALL_PRIVILEGES'' \<or> privilege_value p = Some ''WRITE_VOLUME''"
proof (induction as)
  case Nil
  then show ?case by simp
next
  case (Cons a as)
  show ?case
  proof (cases "privileges a")
    case None
    with Cons.prems show ?thesis by simp
  next
    case (Some ps)
    show ?thesis
    proof (cases "scan_privileges ps = Inr True")
      case True
      from scan_privileges_found[OF this] Some show ?thesis by auto
    next
      case False
      with Cons.prems Some have "scan_assignments as = Inr True"
        by (auto split: sum.splits if_splits)
      from Cons.IH[OF this] show ?thesis by auto
    qed
  qed
qed

lemma scan_assignments_complete:
  "list_all (\<lambda>a. case privileges a of
                   None \<Rightarrow> False
                 | Some ps \<Rightarrow> list_all (\<lambda>p. privilege_value p \<noteq> None) ps) as \<Longrightarrow>
   scan_assignments as =
     Inr (\<exists>p \<in> set (concat (map (\<lambda>a. case privileges a of None \<Rightarrow> [] | Some ps \<Rightarrow> ps) as)).
            privilege_value p = Some ''ALL_PRIVILEGES''
            \<or> privilege_value p = Some ''WRITE_VOLUME'')"
proof (induction as)
  case Nil
  then show ?case by simp
next
  case (Cons a as)
  then obtain ps where ps: "privileges a = Some ps"
    and c: "list_all (\<lambda>p. privilege_value p \<noteq> None) ps"
    by (auto split: option.splits)
  from Cons have ih: "scan_assignments as =
     Inr (\<exists>p \<in> set (concat (map (\<lambda>a. case privileges a of None \<Rightarrow> [] | Some ps \<Rightarrow> ps) as)).
            privilege_value p = Some ''ALL_PRIVILEGES''
            \<or> privilege_value p = Some ''WRITE_VOLUME'')"
    by simp
  show ?case
    using ps scan_privileges_complete[OF c] ih by auto
qed

text \<open>The result of the function, once the three remote calls have returned.\<close>

lemma check_after_calls:
  assumes "volumes_read w v = Inr vol" and "current_user_me w = Inr usr"
    and "grants_get_effective w (full_name vol) (user_name usr) = Inr g"
  shows "snd (check_upload_permissions w v) =
           (if no_grants_found g
            then ''Insufficient permissions: No grants found for '' @ user_name usr @ ''.''
            else (case scan_assignments (reported_assignments w v) of
                    Inl e \<Rightarrow> ''Error: '' @ str_exn e
                  | Inr found \<Rightarrow>
                      if found then validated
                      else ''Insufficient permissions: Required privileges not found.''))"
  using assms
  unfolding check_upload_permissions_def check_body_def bind_def remote_call_def ret_def
    lift_def reported_assignments_def validated_def
  by (cases g)
     (auto simp add: Let_def simp del: scan_assignments.simps
        split: option.splits list.splits sum.splits)

lemma check_error:
  "volumes_read w v = Inl e \<or>
   (\<exists>vol. volumes_read w v = Inr vol \<and>
      (current_user_me w = Inl e \<or>
       (\<exists>usr. current_user_me w = Inr usr \<and>
          grants_get_effective w (full_name vol) (user_name usr) = Inl e)))
   \<Longrightarrow> snd (check_upload_permissions w v) = ''Error: '' @ str_exn e"
  unfolding check_upload_permissions_def check_body_def bind_def remote_call_def ret_def
  by (auto split: sum.splits prod.splits)




lemma not_validated:
  "''Error: '' @ x \<noteq> validated"
  "''Insufficient permissions: No grants found for '' @ y @ ''.'' \<noteq> validated"
  "''Insufficient permissions: Required privileges not found.'' \<noteq> validated"
  by (simp_all add: validated_def)

lemma holds_write_privilege_scan:
  "holds_write_privilege w v \<longleftrightarrow>
     (\<exists>p \<in> set (concat (map (\<lambda>a. case privileges a of None \<Rightarrow> [] | Some ps \<Rightarrow> ps)
                            (reported_assignments w v))).
        privilege_value p = Some ''ALL_PRIVILEGES'' \<or> privilege_value p = Some ''WRITE_VOLUME'')"
  by (simp add: holds_write_privilege_def effective_privileges_def)

text \<open>Success only with a write privilege among the grants.\<close>

lemma check_validated_imp:
  assumes "snd (check_upload_permissions w v) = validated"
  shows "holds_write_privilege w v"
proof (cases "volumes_read w v")
  case (Inl e)
  with check_error[of w v e] assms not_validated(1) show ?thesis by metis
next
  case vol: (Inr vol)
  show ?thesis
  proof (cases "current_user_me w")
    case (Inl e)
    with vol check_error[of w v e] assms not_validated(1) show ?thesis by metis
  next
    case usr: (Inr usr)
    show ?thesis
    proof (cases "grants_get_effective w (full_name vol) (user_name usr)")
      case (Inl e)
      with vol usr check_error[of w v e] assms not_validated(1) show ?thesis by metis
    next
      case (Inr g)
      note r = check_after_calls[OF vol usr Inr]
      have "scan_assignments (reported_assignments w v) = Inr True"
      proof (cases "no_grants_found g")
        case True
        with r assms not_validated(2) show ?thesis by (metis (full_types))
      next
        case False
        show ?thesis
        proof (cases "scan_assignments (reported_assignments w v)")
          case (Inl e)
          with r False have "snd (check_upload_permissions w v) = ''Error: '' @ str_exn e"
            by simp
          with assms not_validated(1) show ?thesis by metis
        next
          case found: (Inr found)
          show ?thesis
          proof (cases found)
            case True
            with found show ?thesis by simp
          next
            case nf: False
            with r False found have "snd (check_upload_permissions w v) =
                ''Insufficient permissions: Required privileges not found.''"
              by simp
            with assms not_validated(3) show ?thesis by metis
          qed
        qed
      qed
      from scan_assignments_found[OF this] show ?thesis
        by (simp add: holds_write_privilege_scan)
    qed
  qed
qed

lemma holds_calls:
  assumes "holds_write_privilege w v"
  shows "\<exists>vol usr g. volumes_read w v = Inr vol \<and> current_user_me w = Inr usr
           \<and> grants_get_effective w (full_name vol) (user_name usr) = Inr g
           \<and> \<not> no_grants_found g"
proof -
  from assms have "reported_assignments w v \<noteq> []"
    by (auto simp: holds_write_privilege_scan)
  then show ?thesis
    by (auto simp: reported_assignments_def split: sum.splits option.splits)
qed

text \<open>With complete grants, success exactly with a write privilege among them.\<close>

lemma check_validated_complete:
  assumes "complete_grants w v"
  shows "snd (check_upload_permissions w v) = validated \<longleftrightarrow> holds_write_privilege w v"
proof
  assume "snd (check_upload_permissions w v) = validated"
  then show "holds_write_privilege w v" by (rule check_validated_imp)
next
  assume h: "holds_write_privilege w v"
  from holds_calls[OF this] obtain vol usr g where c: "volumes_read w v = Inr vol"
    "current_user_me w = Inr usr"
    "grants_get_effective w (full_name vol) (user_name usr) = Inr g"
    and ng: "\<not> no_grants_found g"
    by blast
  from assms have "scan_assignments (reported_assignments w v) = Inr True"
    using scan_assignments_complete[of "reported_assignments w v"] h
    by (simp add: complete_grants_def holds_write_privilege_scan)
  with check_after_calls[OF c] ng show "snd (check_upload_permissions w v) = validated"
    by simp
qed




lemma sample_remote_calls:
  "volumes_read (sample_remote privs) v = Inr \<lparr>full_name = v\<rparr>"
  "current_user_me (sample_remote privs) = Inr \<lparr>user_name = ''app''\<rparr>"
  "grants_get_effective (sample_remote privs) f p =
     Inr (Some \<lparr>privilege_assignments =
            Some [\<lparr>privileges = Some (map (\<lambda>v. \<lparr>privilege_value = Some v\<rparr>) privs)\<rparr>]\<rparr>)"
  by (simp_all add: sample_remote_def)

lemma sample_reported:
  "reported_assignments (sample_remote privs) v =
     [\<lparr>privileges = Some (map (\<lambda>v. \<lparr>privilege_value = Some v\<rparr>) privs)\<rparr>]"
  by (simp add: reported_assignments_def sample_remote_calls)

lemma sample_complete: "complete_grants (sample_remote privs) v"
  by (simp add: complete_grants_def sample_reported list_all_iff)

lemma sample_grants:
  "holds_write_privilege (sample_remote [''WRITE_VOLUME'']) v"
  "holds_write_privilege (sample_remote [''READ_VOLUME'', ''WRITE_VOLUME'']) v"
  "\<not> holds_write_privilege (sample_remote [''READ_VOLUME'']) v"
  by (simp_all add: holds_write_privilege_scan sample_reported)



lemma sample_check_passes:
  "snd (check_upload_permissions (sample_remote [''WRITE_VOLUME'']) v) = validated"
  by (simp add: check_validated_complete sample_complete sample_grants)

section \<open>Strings and the upload handler\<close>

lemma split_nonempty: "split d s \<noteq> []"
  by (induction s) (auto simp: Let_def)

lemma split_no_sep: "d \<notin> set s \<Longrightarrow> split d s = [s]"
  by (induction s) (auto simp: Let_def)

lemma split_append_sep: "d \<notin> set a \<Longrightarrow> split d (a @ d # rest) = a # split d rest"
  by (induction a) (auto simp: Let_def)

lemma split_three:
  "d \<notin> set a \<Longrightarrow> d \<notin> set b \<Longrightarrow> d \<notin> set c \<Longrightarrow> split d (a @ [d] @ b @ [d] @ c) = [a, b, c]"
  by (simp add: split_append_sep split_no_sep)

lemma unpack3_three: "unpack3 [a, b, c] = Inr (a, b, c)"
  by (simp add: unpack3_def)

lemma unpack3_other:
  "length parts \<noteq> 3 \<Longrightarrow>
   unpack3 parts = Inl (if length parts < 3 then NotEnoughValues (length parts) else TooManyValues)"
  by (auto simp: unpack3_def split: list.splits)

lemma length3: "length xs = 3 \<Longrightarrow> xs = [xs ! 0, xs ! 1, xs ! 2]"
  by (cases xs; cases "tl xs"; cases "tl (tl xs)") auto

text \<open>The three ways the upload handler ends.\<close>

lemma upload_handler_unpack_fails:
  assumes "length (segments inp) \<noteq> 3"
  shows "upload_handler cfg w inp uf s =
           (s\<lparr>file_upload := Some False\<rparr>, [],
            [StError (''Error uploading file: '' @ str_exn
               (if length (segments inp) < 3 then NotEnoughValues (length (segments inp))
                else TooManyValues))])"
  using unpack3_other[OF assms]
  by (simp add: upload_handler_def upload_body_def segments_def bind_def lift_def Let_def)

lemma upload_handler_transfer_fails:
  assumes "segments inp = [c, sch, v]"
    and "files_upload w (volume_file_path c sch v (uf_name uf)) (uf_bytes uf) True = Inl e"
  shows "upload_handler cfg w inp uf s =
           (s\<lparr>file_upload := Some False\<rparr>,
            [FilesUpload (volume_file_path c sch v (uf_name uf)) (uf_bytes uf) True],
            [StError (''Error uploading file: '' @ str_exn e)])"
  using assms
  by (simp add: upload_handler_def upload_body_def segments_def bind_def lift_def Let_def
      unpack3_three remote_call_def)

lemma upload_handler_succeeds:
  assumes "segments inp = [c, sch, v]"
    and "files_upload w (volume_file_path c sch v (uf_name uf)) (uf_bytes uf) True = Inr ()"
  shows "\<exists>msg. upload_handler cfg w inp uf s =
           (s\<lparr>file_upload := Some True,
              upload_details := Some
                \<lparr>d_catalog = c, d_schema = sch, d_volume_name = v,
                 d_file_name = uf_name uf,
                 d_volume_file_path = volume_file_path c sch v (uf_name uf)\<rparr>\<rparr>,
            [FilesUpload (volume_file_path c sch v (uf_name uf)) (uf_bytes uf) True],
            [StSuccess msg])"
  using assms
  by (simp add: upload_handler_def upload_body_def segments_def bind_def lift_def Let_def
      unpack3_three remote_call_def ret_def)

lemma upload_handler_calls:
  "fst (snd (upload_handler cfg w inp uf s)) =
     (case segments inp of
        [c, sch, v] \<Rightarrow> [FilesUpload (volume_file_path c sch v (uf_name uf)) (uf_bytes uf) True]
      | _ \<Rightarrow> [])"
proof (cases "length (segments inp) = 3")
  case True
  then obtain c sch v where seg: "segments inp = [c, sch, v]"
    using length3 by blast
  show ?thesis
  proof (cases "files_upload w (volume_file_path c sch v (uf_name uf)) (uf_bytes uf) True")
    case (Inl e)
    with seg show ?thesis by (simp add: upload_handler_transfer_fails)
  next
    case (Inr u)
    with seg upload_handler_succeeds[of inp c sch v w uf cfg s] show ?thesis by auto
  qed
next
  case False
  then show ?thesis
    by (auto simp add: upload_handler_unpack_fails split: list.splits)
qed

lemma segments_three_iff: "length xs = 3 \<longleftrightarrow> (\<exists>a b c. xs = [a, b, c])"
  using length3 by (metis length_Cons list.size(3) numeral_3_eq_3)

text \<open>
  C3, as amended. The upload handler reaches the remote transfer call exactly when the
  identifier, stripped of surrounding whitespace, splits on the dot into exactly three
  segments; a segment may be empty. For an identifier that does not split into exactly
  three segments the handler makes no remote call: the unpacking raises, the handler
  records the failure and shows the error.
\<close>
theorem upload_needs_three_segments:
  "(list_ex is_upload (fst (snd (upload_handler cfg w inp uf s)))
      \<longleftrightarrow> length (segments inp) = 3)
   \<and> (length (segments inp) \<noteq> 3 \<longrightarrow>
        upload_handler cfg w inp uf s =
          (s\<lparr>file_upload := Some False\<rparr>, [],
           [StError (''Error uploading file: '' @ str_exn
              (if length (segments inp) < 3 then NotEnoughValues (length (segments inp))
               else TooManyValues))]))"
proof -
  have "list_ex is_upload (fst (snd (upload_handler cfg w inp uf s)))
          \<longleftrightarrow> length (segments inp) = 3"
    unfolding upload_handler_calls segments_three_iff
    by (auto split: list.splits)
  then show ?thesis
    using upload_handler_unpack_fails by blast
qed

theorem upload_needs_three_segments_witness:
  "length (segments (press_upload ''main.marketing'')) \<noteq> 3
   \<and> upload_handler sample_config (sample_remote [''WRITE_VOLUME''])
         (press_upload ''main.marketing'') sample_file initial_state
       = (initial_state\<lparr>file_upload := Some False\<rparr>, [],
          [StError ''Error uploading file: not enough values to unpack (expected 3, got 2)''])
   \<and> length (segments (press_upload ''main.marketing.raw_files'')) = 3
   \<and> list_ex is_upload (fst (snd (upload_handler sample_config (sample_remote [''WRITE_VOLUME''])
         (press_upload ''main.marketing.raw_files'') sample_file initial_state)))"
proof -
  have a: "segments (press_upload ''main.marketing'') = [''main'', ''marketing'']"
    by (simp add: segments_def press_upload_def idle_def strip_eval Let_def)
  have b: "segments (press_upload ''main.marketing.raw_files'') = [''main'', ''marketing'', ''raw_files'']"
    by (simp add: segments_def press_upload_def idle_def strip_eval Let_def)
  have c: "show_nat (Suc (Suc 0)) = ''2''" by code_simp
  show ?thesis
    using upload_needs_three_segments [of sample_config "sample_remote [''WRITE_VOLUME'']"
        "press_upload ''main.marketing''" sample_file initial_state]
      upload_needs_three_segments [of sample_config "sample_remote [''WRITE_VOLUME'']"
        "press_upload ''main.marketing.raw_files''" sample_file initial_state]
    unfolding a b by (simp del: show_nat.simps add: c)
qed

text \<open>
  C3 as stated asks for three non-empty segments. The identifier \<open>main..raw_files\<close>
  has an empty middle segment, and the transfer is called all the same.
\<close>

theorem upload_empty_segment_counterexample:
  "segments (press_upload ''main..raw_files'') = [''main'', [], ''raw_files'']
   \<and> upload_handler sample_config (sample_remote [''WRITE_VOLUME''])
         (press_upload ''main..raw_files'') sample_file initial_state
       = (initial_state\<lparr>file_upload := Some True,
            upload_details := Some
              \<lparr>d_catalog = ''main'', d_schema = [], d_volume_name = ''raw_files'',
               d_file_name = ''data.csv'',
               d_volume_file_path = ''/Volumes/main//raw_files/data.csv''\<rparr>\<rparr>,
          [FilesUpload ''/Volumes/main//raw_files/data.csv'' ''id,name'' True],
          [StSuccess (''File '' @ q @ ''data.csv'' @ q @ '' uploaded to **main..raw_files**. [Go to volume](https://adb.example.net/explore/data/volumes/main//raw_files)'')])"
  by (simp add: segments_def press_upload_def idle_def strip_eval Let_def
      upload_handler_def upload_body_def bind_def lift_def unpack3_def remote_call_def ret_def
      sample_remote_def sample_config_def sample_file_def volume_file_path_def q_def initial_state_def)

section \<open>The remote path\<close>

text \<open>
  C7. The remote path is a function of the identifier and the file name alone: for an
  identifier that reads \<open>catalog.schema.volume\<close> once stripped, with no dot inside
  a segment, and a file named \<open>f\<close>, the one remote call of the upload handler is the
  transfer to \<open>/Volumes/catalog/schema/volume/f\<close>, whatever the platform, the
  configuration and the session state are, and it is issued with \<open>overwrite=True\<close>.
\<close>
theorem remote_path_construction:
  assumes "CHR ''.'' \<notin> set c \<union> set sch \<union> set v"
    and "strip (upload_volume_path inp) = c @ ''.'' @ sch @ ''.'' @ v"
  shows "fst (snd (upload_handler cfg w inp uf s)) =
           [FilesUpload (''/Volumes/'' @ c @ ''/'' @ sch @ ''/'' @ v @ ''/'' @ uf_name uf)
              (uf_bytes uf) True]"
proof -
  have "segments inp = [c, sch, v]"
    using assms split_three[of "CHR ''.''" c sch v] by (simp add: segments_def)
  then show ?thesis
    by (simp add: upload_handler_calls volume_file_path_def)
qed

theorem remote_path_construction_witness:
  "fst (snd (upload_handler sample_config refusing_upload
               (press_upload ''main.marketing.raw_files'') sample_file initial_state)) =
     [FilesUpload ''/Volumes/main/marketing/raw_files/data.csv'' ''id,name'' True]"
proof -
  have a: "CHR ''.'' \<notin> set ''main'' \<union> set ''marketing'' \<union> set ''raw_files''"
    by simp
  have b: "strip (upload_volume_path (press_upload ''main.marketing.raw_files''))
             = ''main'' @ ''.'' @ ''marketing'' @ ''.'' @ ''raw_files''"
    by (simp add: press_upload_def idle_def strip_eval Let_def)
  show ?thesis
    using remote_path_construction [OF a b, of sample_config refusing_upload sample_file initial_state]
    by (simp add: sample_file_def)
qed

lemma check_handler_path:
  "strip (upload_volume_path inp) = strip (upload_volume_path inp') \<Longrightarrow>
   check_handler w inp s = check_handler w inp' s"
  by (simp add: check_handler_def)

lemma create_handler_table:
  "strip (table_name_input inp) = strip (table_name_input inp') \<Longrightarrow>
   create_handler cfg w inp s = create_handler cfg w inp' s"
  by (simp add: create_handler_def create_body_def)

lemma upload_handler_path:
  assumes "strip (upload_volume_path inp) = strip (upload_volume_path inp')"
  shows "fst (upload_handler cfg w inp uf s) = fst (upload_handler cfg w inp' uf s)
       \<and> fst (snd (upload_handler cfg w inp uf s)) = fst (snd (upload_handler cfg w inp' uf s))"
  using assms
  by (simp add: upload_handler_def upload_body_def bind_def lift_def remote_call_def ret_def
      Let_def split: sum.splits prod.splits)

lemma check_handler_calls:
  "fst (snd (check_handler w inp s)) =
     fst (check_upload_permissions w (strip (upload_volume_path inp)))"
  by (simp add: check_handler_def split: prod.splits)

section \<open>Whitespace at the edges\<close>

text \<open>
  C10. Padding a text input with whitespace characters on both sides, any of the
  characters \<^verbatim>\<open>str.isspace\<close> holds for, changes nothing the handlers send out: the
  stripped string is the same, so the check handler gives the same result (same
  argument to \<open>check_upload_permissions\<close>), the upload handler makes the same call (same
  remote path) and leaves the same state, and the table handler gives the same result
  (same table target in both statements).
\<close>

theorem edge_whitespace_ignored:
  assumes "\<forall>p \<in> set ps \<union> set qs. isspace p"
  shows "strip (pad ps x qs) = strip x
       \<and> check_handler w (inp\<lparr>upload_volume_path := pad ps x qs\<rparr>) s
           = check_handler w (inp\<lparr>upload_volume_path := x\<rparr>) s
       \<and> fst (upload_handler cfg w (inp\<lparr>upload_volume_path := pad ps x qs\<rparr>) uf s)
           = fst (upload_handler cfg w (inp\<lparr>upload_volume_path := x\<rparr>) uf s)
       \<and> fst (snd (upload_handler cfg w (inp\<lparr>upload_volume_path := pad ps x qs\<rparr>) uf s))
           = fst (snd (upload_handler cfg w (inp\<lparr>upload_volume_path := x\<rparr>) uf s))
       \<and> create_handler cfg w (inp\<lparr>table_name_input := pad ps x qs\<rparr>) s
           = create_handler cfg w (inp\<lparr>table_name_input := x\<rparr>) s"
proof -
  have p: "strip (pad ps x qs) = strip x"
    unfolding pad_def using assms by (rule strip_pad)
  show ?thesis
    using check_handler_path[of "inp\<lparr>upload_volume_path := pad ps x qs\<rparr>"
        "inp\<lparr>upload_volume_path := x\<rparr>" w s]
      upload_handler_path[of "inp\<lparr>upload_volume_path := pad ps x qs\<rparr>"
        "inp\<lparr>upload_volume_path := x\<rparr>" cfg w uf s]
      create_handler_table[of "inp\<lparr>table_name_input := pad ps x qs\<rparr>"
        "inp\<lparr>table_name_input := x\<rparr>" cfg w s]
    by (simp add: p)
qed

lemma sample_strip:
  "strip ''main.marketing.raw_files'' = ''main.marketing.raw_files''"
  "strip ''test_table'' = ''test_table''"
  by (simp_all add: strip_eval)

text \<open>
  The padding of the witness: a no-break space and a space in front, an em space and a
  tab behind.
\<close>

theorem edge_whitespace_ignored_witness:
  "fst (snd (check_handler (sample_remote [''WRITE_VOLUME''])
         (press_check (pad [0xA0, 0x20] ''main.marketing.raw_files'' [0x2003, 0x09]))
         initial_state))
     = [VolumesRead ''main.marketing.raw_files'', CurrentUserMe,
        GrantsGetEffective ''main.marketing.raw_files'' ''app'']
   \<and> fst (snd (upload_handler sample_config (sample_remote [''WRITE_VOLUME''])
         (press_upload (pad [0xA0, 0x20] ''main.marketing.raw_files'' [0x2003, 0x09]))
         sample_file initial_state))
     = [FilesUpload ''/Volumes/main/marketing/raw_files/data.csv'' ''id,name'' True]
   \<and> statements (fst (create_handler sample_config (sample_remote [''WRITE_VOLUME''])
         (press_create ''main.marketing.raw_files''
            (pad [0xA0, 0x20] ''test_table'' [0x2003, 0x09]))
         uploaded_state))
     = [query1 ''main'' ''marketing'' ''test_table'',
        query2 ''main'' ''marketing'' ''raw_files'' ''data.csv'' ''test_table'']"
proof -
  let ?ps = "[0xA0, 0x20] :: nat list" and ?qs = "[0x2003, 0x09] :: nat list"
  let ?w = "sample_remote [''WRITE_VOLUME'']"
  have h: "\<forall>p \<in> set ?ps \<union> set ?qs. isspace p"
    by (simp add: isspace_def space_points_def)
  have a: "press_check (pad ?ps x ?qs) = (press_check x)\<lparr>upload_volume_path := pad ?ps x ?qs\<rparr>"
    and a': "press_check x = (press_check x)\<lparr>upload_volume_path := x\<rparr>"
    and b: "press_upload (pad ?ps x ?qs) = (press_upload x)\<lparr>upload_volume_path := pad ?ps x ?qs\<rparr>"
    and b': "press_upload x = (press_upload x)\<lparr>upload_volume_path := x\<rparr>"
    and c: "press_create p (pad ?ps x ?qs) = (press_create p x)\<lparr>table_name_input := pad ?ps x ?qs\<rparr>"
    and c': "press_create p x = (press_create p x)\<lparr>table_name_input := x\<rparr>" for x p
    by (simp_all add: press_check_def press_upload_def press_create_def idle_def)
  note t1 = edge_whitespace_ignored [where ps = ?ps and qs = ?qs and w = ?w
      and inp = "press_check ''main.marketing.raw_files''" and x = "''main.marketing.raw_files''"
      and s = initial_state and cfg = sample_config and uf = sample_file, OF h, folded a a']
  note t2 = edge_whitespace_ignored [where ps = ?ps and qs = ?qs and w = ?w
      and inp = "press_upload ''main.marketing.raw_files''" and x = "''main.marketing.raw_files''"
      and s = initial_state and cfg = sample_config and uf = sample_file, OF h, folded b b']
  note t3 = edge_whitespace_ignored [where ps = ?ps and qs = ?qs and w = ?w
      and inp = "press_create ''main.marketing.raw_files'' ''test_table''" and x = "''test_table''"
      and s = uploaded_state and cfg = sample_config and uf = sample_file, OF h, folded c c']
  have e1: "fst (snd (check_handler ?w (press_check ''main.marketing.raw_files'') initial_state))
     = [VolumesRead ''main.marketing.raw_files'', CurrentUserMe,
        GrantsGetEffective ''main.marketing.raw_files'' ''app'']"
    by (simp add: check_handler_calls press_check_def idle_def sample_strip
        check_upload_permissions_def check_body_def bind_def remote_call_def lift_def ret_def
        Let_def sample_remote_def write_privileges_def)
  have e2: "fst (snd (upload_handler sample_config ?w (press_upload ''main.marketing.raw_files'')
                        sample_file initial_state))
     = [FilesUpload ''/Volumes/main/marketing/raw_files/data.csv'' ''id,name'' True]"
    by (simp add: upload_handler_calls segments_def press_upload_def idle_def sample_strip
        Let_def volume_file_path_def sample_file_def)
  have e3: "statements (fst (create_handler sample_config ?w
                  (press_create ''main.marketing.raw_files'' ''test_table'') uploaded_state))
     = [query1 ''main'' ''marketing'' ''test_table'',
        query2 ''main'' ''marketing'' ''raw_files'' ''data.csv'' ''test_table'']"
    by (simp add: create_handler_def create_body_def create_table_from_volume_file_def
        bind_def remote_call_def lift_def ret_def press_create_def idle_def sample_strip
        uploaded_state_def sample_remote_def)
  from t1 t2 t3 e1 e2 e3 show ?thesis by simp
qed

section \<open>Table creation\<close>

lemma create_table_calls:
  "create_table_from_volume_file c sch v f tn conn =
     (case conn_cursor conn of
        Inl e \<Rightarrow> ([Cursor], Inl e)
      | Inr _ \<Rightarrow>
          (case cursor_execute conn (query1 c sch tn) of
             Inl e \<Rightarrow> ([Cursor, Execute (query1 c sch tn)], Inl e)
           | Inr _ \<Rightarrow>
               ([Cursor, Execute (query1 c sch tn), Execute (query2 c sch v f tn)],
                cursor_execute conn (query2 c sch v f tn))))"
  by (simp add: create_table_from_volume_file_def bind_def remote_call_def
      split: sum.splits prod.splits)

text \<open>
  C5, as amended. \<open>create_table_from_volume_file\<close> opens a cursor on the given
  connection and issues at most two statements, in this order and nothing else: first
  \<open>CREATE TABLE IF NOT EXISTS catalog.schema.table_name USING DELTA\<close>, then, when the
  first statement does not raise, \<open>COPY INTO\<close> the same table
  \<open>FROM '/Volumes/catalog/schema/volume_name/file_name'\<close> with \<open>FILEFORMAT = CSV\<close>,
  the format options header and inferSchema true, and the copy option mergeSchema
  true. It issues both when the cursor opens and the first statement succeeds, and none
  when the cursor cannot be opened. The statements are written out with their line
  breaks (byte 0x0A) and the eight spaces of indentation after each.
\<close>

theorem create_table_two_statements:
  "fst (create_table_from_volume_file c sch v f tn conn) =
      Cursor # map Execute (statements (fst (create_table_from_volume_file c sch v f tn conn)))
   \<and> statements (fst (create_table_from_volume_file c sch v f tn conn)) =
      (let create =
             [CHR 0x0A] @ ''        CREATE TABLE IF NOT EXISTS '' @ c @ ''.'' @ sch @ ''.'' @ tn
             @ [CHR 0x0A] @ ''        USING DELTA;''
             @ [CHR 0x0A] @ ''        '';
           copy =
             ''COPY INTO '' @ c @ ''.'' @ sch @ ''.'' @ tn
             @ [CHR 0x0A] @ ''        FROM '/Volumes/'' @ c @ ''/'' @ sch @ ''/'' @ v @ ''/'' @ f
             @ [CHR 0x27]
             @ [CHR 0x0A] @ ''        FILEFORMAT = CSV''
             @ [CHR 0x0A] @ ''        FORMAT_OPTIONS ('header' = 'true', 'inferSchema' = 'true')''
             @ [CHR 0x0A] @ ''        COPY_OPTIONS ('mergeSchema' = 'true');''
             @ [CHR 0x0A] @ ''        ''
       in case conn_cursor conn of
            Inl e \<Rightarrow> []
          | Inr u \<Rightarrow>
              (case cursor_execute conn create of
                 Inl e \<Rightarrow> [create]
               | Inr u \<Rightarrow> [create, copy]))"
  by (simp add: create_table_calls query1_def query2_def nl_def q_def Let_def
      split: sum.splits)

theorem create_table_two_statements_witness:
  "statements (fst (create_table_from_volume_file ''main'' ''marketing'' ''raw_files''
       ''data.csv'' ''test_table'' (sample_remote [''WRITE_VOLUME'']))) =
     [[CHR 0x0A] @ ''        CREATE TABLE IF NOT EXISTS main.marketing.test_table''
      @ [CHR 0x0A] @ ''        USING DELTA;''
      @ [CHR 0x0A] @ ''        '',
      ''COPY INTO main.marketing.test_table''
      @ [CHR 0x0A] @ ''        FROM '/Volumes/main/marketing/raw_files/data.csv'' @ [CHR 0x27]
      @ [CHR 0x0A] @ ''        FILEFORMAT = CSV''
      @ [CHR 0x0A] @ ''        FORMAT_OPTIONS ('header' = 'true', 'inferSchema' = 'true')''
      @ [CHR 0x0A] @ ''        COPY_OPTIONS ('mergeSchema' = 'true');''
      @ [CHR 0x0A] @ ''        '']"
  using create_table_two_statements [of "''main''" "''marketing''" "''raw_files''"
      "''data.csv''" "''test_table''" "sample_remote [''WRITE_VOLUME'']"]
  by (simp add: sample_remote_def Let_def)

text \<open>
  C5 as stated has two statements issued for every input. On a connection whose
  \<^verbatim>\<open>execute\<close> raises, the first statement is issued and the second is not.
\<close>

theorem first_statement_refused_counterexample:
  "statements (fst (create_table_from_volume_file ''main'' ''marketing'' ''raw_files''
       ''data.csv'' ''test_table'' refusing_sql)) =
     [[CHR 0x0A] @ ''        CREATE TABLE IF NOT EXISTS main.marketing.test_table''
      @ [CHR 0x0A] @ ''        USING DELTA;''
      @ [CHR 0x0A] @ ''        '']"
  by (simp add: create_table_from_volume_file_def bind_def remote_call_def refusing_sql_def
      sample_remote_def query1_def nl_def)

lemma create_handler_error:
  "snd (create_body cfg w inp s) = Inl e \<Longrightarrow>
   snd (create_handler cfg w inp s) = [StError (''Error creating table: '' @ str_exn e)]"
  by (cases "create_body cfg w inp s") (simp add: create_handler_def)

lemma create_body_calls:
  assumes "sql_connect w (http_path cfg) = Inr ()" and "upload_details s = Some d"
  shows "create_body cfg w inp s =
     (case create_table_from_volume_file (d_catalog d) (d_schema d) (d_volume_name d)
             (d_file_name d) (strip (table_name_input inp)) w of
        (t, Inl e) \<Rightarrow> (GetConnection (http_path cfg) # t, Inl e)
      | (t, Inr _) \<Rightarrow> (GetConnection (http_path cfg) # t,
           Inr [StSuccess (''Table `'' @ strip (table_name_input inp)
                     @ ''` created successfully! '' @ check_mark)]))"
  using assms
  by (simp add: create_body_def bind_def remote_call_def lift_def ret_def
      split: sum.splits prod.splits)

text \<open>
  C6. Table creation is not atomic. When the connection and the cursor open, the first
  statement succeeds and the second raises, the run issues the two statements and
  nothing after them: no compensating statement. The session state is unchanged and the
  failure is shown as \<open>Error creating table:\<close> followed by the exception's text,
  which is what every other failure of table creation with that exception shows.
\<close>
theorem partial_creation_not_rolled_back:
  assumes "file_upload s = Some True" and "upload_details s = Some d"
    and "create_button inp"
    and "sql_connect w (http_path cfg) = Inr ()" and "conn_cursor w = Inr ()"
    and "cursor_execute w (query1 (d_catalog d) (d_schema d) (strip (table_name_input inp))) = Inr ()"
    and "cursor_execute w (query2 (d_catalog d) (d_schema d) (d_volume_name d) (d_file_name d)
           (strip (table_name_input inp))) = Inl e"
  shows "table_section cfg w inp s =
           (s,
            [GetConnection (http_path cfg), Cursor,
             Execute (query1 (d_catalog d) (d_schema d) (strip (table_name_input inp))),
             Execute (query2 (d_catalog d) (d_schema d) (d_volume_name d) (d_file_name d)
                        (strip (table_name_input inp)))],
            [TableNameInput, CreateTableButton,
             StError (''Error creating table: '' @ str_exn e)])
       \<and> (\<forall>w' inp' s'. snd (create_body cfg w' inp' s') = Inl e \<longrightarrow>
             snd (create_handler cfg w' inp' s') = snd (create_handler cfg w inp s))"
proof -
  have body: "create_body cfg w inp s =
           ([GetConnection (http_path cfg), Cursor,
             Execute (query1 (d_catalog d) (d_schema d) (strip (table_name_input inp))),
             Execute (query2 (d_catalog d) (d_schema d) (d_volume_name d) (d_file_name d)
                        (strip (table_name_input inp)))], Inl e)"
    using assms by (simp add: create_body_calls create_table_calls)
  then have h: "create_handler cfg w inp s =
           ([GetConnection (http_path cfg), Cursor,
             Execute (query1 (d_catalog d) (d_schema d) (strip (table_name_input inp))),
             Execute (query2 (d_catalog d) (d_schema d) (d_volume_name d) (d_file_name d)
                        (strip (table_name_input inp)))],
            [StError (''Error creating table: '' @ str_exn e)])"
    by (simp add: create_handler_def)
  with assms(1,3) have "table_section cfg w inp s =
           (s,
            [GetConnection (http_path cfg), Cursor,
             Execute (query1 (d_catalog d) (d_schema d) (strip (table_name_input inp))),
             Execute (query2 (d_catalog d) (d_schema d) (d_volume_name d) (d_file_name d)
                        (strip (table_name_input inp)))],
            [TableNameInput, CreateTableButton,
             StError (''Error creating table: '' @ str_exn e)])"
    by (simp add: table_section_def)
  moreover have "\<forall>w' inp' s'. snd (create_body cfg w' inp' s') = Inl e \<longrightarrow>
             snd (create_handler cfg w' inp' s') = snd (create_handler cfg w inp s)"
    using h create_handler_error by simp
  ultimately show ?thesis by blast
qed


theorem partial_creation_not_rolled_back_witness:
  "table_section sample_config refusing_copy
       (press_create ''main.marketing.raw_files'' ''test_table'') uploaded_state =
     (uploaded_state,
      [GetConnection (Some ''/sql/1.0/warehouses/abc''), Cursor,
       Execute (query1 ''main'' ''marketing'' ''test_table''),
       Execute (query2 ''main'' ''marketing'' ''raw_files'' ''data.csv'' ''test_table'')],
      [TableNameInput, CreateTableButton, StError ''Error creating table: load failed''])
   \<and> snd (create_handler sample_config refusing_sql
         (press_create ''main.marketing.raw_files'' ''test_table'') uploaded_state)
       = snd (create_handler sample_config refusing_copy
         (press_create ''main.marketing.raw_files'' ''test_table'') uploaded_state)"
proof -
  let ?inp = "press_create ''main.marketing.raw_files'' ''test_table''"
  let ?d = "\<lparr>d_catalog = ''main'', d_schema = ''marketing'', d_volume_name = ''raw_files'',
         d_file_name = ''data.csv'',
         d_volume_file_path = ''/Volumes/main/marketing/raw_files/data.csv''\<rparr>"
  have tn: "strip (table_name_input ?inp) = ''test_table''"
    by (simp add: press_create_def idle_def strip_eval Let_def)
  have a1: "file_upload uploaded_state = Some True"
    and a2: "upload_details uploaded_state = Some ?d"
    and a3: "create_button ?inp"
    and a4: "sql_connect refusing_copy (http_path sample_config) = Inr ()"
    and a5: "conn_cursor refusing_copy = Inr ()"
    by (simp_all add: uploaded_state_def press_create_def idle_def refusing_copy_def
        sample_remote_def)
  have a6: "cursor_execute refusing_copy
      (query1 (d_catalog ?d) (d_schema ?d) (strip (table_name_input ?inp))) = Inr ()"
    unfolding tn by (simp add: refusing_copy_def sample_remote_def query1_def nl_def)
  have a7: "cursor_execute refusing_copy
      (query2 (d_catalog ?d) (d_schema ?d) (d_volume_name ?d) (d_file_name ?d)
         (strip (table_name_input ?inp))) = Inl (RemoteError ''load failed'')"
    unfolding tn by (simp add: refusing_copy_def sample_remote_def query2_def)
  have other: "snd (create_body sample_config refusing_sql ?inp uploaded_state)
                 = Inl (RemoteError ''load failed'')"
    by (simp add: create_body_def create_table_from_volume_file_def bind_def remote_call_def
        lift_def refusing_sql_def sample_remote_def uploaded_state_def)
  note t = partial_creation_not_rolled_back [OF a1 a2 a3 a4 a5 a6 a7]
  from t other have "snd (create_handler sample_config refusing_sql ?inp uploaded_state)
       = snd (create_handler sample_config refusing_copy ?inp uploaded_state)"
    by blast
  moreover from t have "table_section sample_config refusing_copy ?inp uploaded_state =
     (uploaded_state,
      [GetConnection (Some ''/sql/1.0/warehouses/abc''), Cursor,
       Execute (query1 ''main'' ''marketing'' ''test_table''),
       Execute (query2 ''main'' ''marketing'' ''raw_files'' ''data.csv'' ''test_table'')],
      [TableNameInput, CreateTableButton, StError ''Error creating table: load failed''])"
    unfolding tn by (simp add: sample_config_def)
  ultimately show ?thesis by blast
qed

section \<open>The parts of a run\<close>

lemma check_calls:
  "\<not> list_ex is_upload (fst (check_upload_permissions w v))
   \<and> \<not> list_ex is_sql (fst (check_upload_permissions w v))"
  unfolding check_upload_permissions_def check_body_def bind_def remote_call_def ret_def
    lift_def
  by (auto simp: Let_def split: sum.splits prod.splits option.splits list.splits)

lemma check_handler_state:
  "fst (check_handler w inp s) =
     s\<lparr>volume_check_success :=
         Some (snd (check_upload_permissions w (strip (upload_volume_path inp))) = validated)\<rparr>"
  by (simp add: check_handler_def validated_def split: prod.splits)

lemma check_handler_ui:
  "\<not> list_ex is_upload_widget (snd (snd (check_handler w inp s)))
   \<and> \<not> list_ex is_table_widget (snd (snd (check_handler w inp s)))"
  by (simp add: check_handler_def split: prod.splits)

lemma upload_handler_completes:
  assumes "uploaded_file inp = Some uf" and "upload_button inp" and "upload_completes w inp"
  shows "\<exists>p msg. upload_handler cfg w inp uf s =
           (s\<lparr>file_upload := Some True, upload_details := details_of inp\<rparr>,
            [FilesUpload p (uf_bytes uf) True], [StSuccess msg])"
proof -
  from assms obtain c sch v where seg: "segments inp = [c, sch, v]"
    and ok: "files_upload w (volume_file_path c sch v (uf_name uf)) (uf_bytes uf) True = Inr ()"
    by (auto simp: upload_completes_def split: list.splits)
  from upload_handler_succeeds[OF seg ok, of cfg s] assms(1) seg show ?thesis
    by (auto simp: details_of_def)
qed

lemma upload_handler_fails:
  assumes "uploaded_file inp = Some uf" and "upload_button inp" and "\<not> upload_completes w inp"
  shows "\<exists>t msg. upload_handler cfg w inp uf s =
           (s\<lparr>file_upload := Some False\<rparr>, t, [StError msg]) \<and> \<not> list_ex is_sql t"
proof (cases "length (segments inp) = 3")
  case True
  then obtain c sch v where seg: "segments inp = [c, sch, v]"
    using length3 by blast
  with assms obtain e where
    "files_upload w (volume_file_path c sch v (uf_name uf)) (uf_bytes uf) True = Inl e"
    by (cases "files_upload w (volume_file_path c sch v (uf_name uf)) (uf_bytes uf) True")
       (auto simp: upload_completes_def)
  from upload_handler_transfer_fails[OF seg this, of cfg s] show ?thesis by simp
next
  case False
  from upload_handler_unpack_fails[OF this, of cfg w uf s] show ?thesis by simp
qed

lemma upload_body_raises_iff:
  "(\<exists>e. snd (upload_body cfg w inp uf s) = Inl e) \<longleftrightarrow>
     \<not> (case segments inp of
          [c, sch, v] \<Rightarrow>
            files_upload w (volume_file_path c sch v (uf_name uf)) (uf_bytes uf) True = Inr ()
        | _ \<Rightarrow> False)"
  by (auto simp add: upload_body_def segments_def bind_def lift_def Let_def unpack3_def
      remote_call_def ret_def split: list.splits sum.splits prod.splits)


lemma create_handler_calls:
  "\<not> list_ex is_upload (fst (create_handler cfg w inp s))"
  unfolding create_handler_def create_body_def create_table_from_volume_file_def bind_def
    remote_call_def lift_def ret_def
  by (auto split: sum.splits prod.splits option.splits)

lemma create_handler_ui:
  "\<not> list_ex is_upload_widget (snd (create_handler cfg w inp s))"
  unfolding create_handler_def create_body_def bind_def remote_call_def lift_def ret_def
  by (auto split: sum.splits prod.splits option.splits)

lemma create_handler_reaches:
  "list_ex is_sql (fst (create_handler cfg w inp s))"
  unfolding create_handler_def create_body_def bind_def remote_call_def
  by (auto split: sum.splits prod.splits)

lemma create_handler_statements:
  assumes "upload_details s = Some d"
  shows "set (statements (fst (create_handler cfg w inp s))) \<subseteq>
           {query1 (d_catalog d) (d_schema d) (strip (table_name_input inp)),
            query2 (d_catalog d) (d_schema d) (d_volume_name d) (d_file_name d)
              (strip (table_name_input inp))}"
  using assms
  unfolding create_handler_def create_body_def bind_def remote_call_def lift_def ret_def
  by (auto simp: create_table_calls split: sum.splits prod.splits)

lemma table_section_state:
  "fst (table_section cfg w inp s) =
     (case file_upload s of None \<Rightarrow> s\<lparr>file_upload := Some False\<rparr> | Some b \<Rightarrow> s)"
  by (simp add: table_section_def split: option.splits bool.splits prod.splits)

lemma table_section_reaches:
  "reaches_table_creation (fst (snd (table_section cfg w inp s)))
      (snd (snd (table_section cfg w inp s))) \<longleftrightarrow> file_upload s = Some True"
  by (simp add: table_section_def reaches_table_creation_def
      split: option.splits bool.splits prod.splits)

lemma table_section_no_upload:
  "\<not> reaches_upload (fst (snd (table_section cfg w inp s)))
      (snd (snd (table_section cfg w inp s)))"
  using create_handler_calls[of cfg w inp s] create_handler_ui[of cfg w inp s]
  by (cases "create_handler cfg w inp s")
     (auto simp add: table_section_def reaches_upload_def split: option.splits bool.splits)

lemma table_section_statements:
  assumes "upload_details s = Some d"
  shows "set (statements (fst (snd (table_section cfg w inp s)))) \<subseteq>
           {query1 (d_catalog d) (d_schema d) (strip (table_name_input inp)),
            query2 (d_catalog d) (d_schema d) (d_volume_name d) (d_file_name d)
              (strip (table_name_input inp))}"
  using create_handler_statements[OF assms, of cfg w inp]
  by (cases "create_handler cfg w inp s")
     (auto simp add: table_section_def split: option.splits bool.splits)


text \<open>The upload part, by what the run attempts.\<close>

lemma upload_part_idle:
  assumes "uploaded_file inp = None \<or> \<not> upload_button inp"
  shows "\<exists>u. upload_part cfg w inp s = (s, [], u) \<and> list_ex is_upload_widget u
           \<and> \<not> list_ex is_table_widget u"
  using assms by (auto simp: upload_part_def split: option.splits)

lemma upload_part_completes:
  assumes "uploaded_file inp = Some uf" and "upload_button inp" and "upload_completes w inp"
  shows "\<exists>t u. upload_part cfg w inp s =
           (s\<lparr>file_upload := Some True, upload_details := details_of inp\<rparr>, t, u)
         \<and> list_ex is_upload t \<and> \<not> list_ex is_sql t
         \<and> list_ex is_upload_widget u \<and> \<not> list_ex is_table_widget u"
  using upload_handler_completes[OF assms, of cfg s] assms(1,2)
  by (auto simp: upload_part_def)

lemma upload_part_fails:
  assumes "uploaded_file inp = Some uf" and "upload_button inp" and "\<not> upload_completes w inp"
  shows "\<exists>t u. upload_part cfg w inp s = (s\<lparr>file_upload := Some False\<rparr>, t, u)
         \<and> \<not> list_ex is_sql t
         \<and> list_ex is_upload_widget u \<and> \<not> list_ex is_table_widget u"
  using upload_handler_fails[OF assms, of cfg s] assms(1,2)
  by (auto simp: upload_part_def)

text \<open>
  What the upload part leaves: the state, whether a transfer was called, and that it
  renders the upload widgets and nothing of table creation.
\<close>

lemma upload_part_summary:
  "\<exists>s' t u. upload_part cfg w inp s = (s', t, u)
     \<and> s' = (if uploaded_file inp \<noteq> None \<and> upload_button inp
             then (if upload_completes w inp
                   then s\<lparr>file_upload := Some True, upload_details := details_of inp\<rparr>
                   else s\<lparr>file_upload := Some False\<rparr>)
             else s)
     \<and> (list_ex is_upload t \<longrightarrow> uploaded_file inp \<noteq> None \<and> upload_button inp)
     \<and> (uploaded_file inp \<noteq> None \<and> upload_button inp \<and> upload_completes w inp
          \<longrightarrow> list_ex is_upload t)
     \<and> \<not> list_ex is_sql t
     \<and> list_ex is_upload_widget u \<and> \<not> list_ex is_table_widget u"
proof (cases "uploaded_file inp = None \<or> \<not> upload_button inp")
  case True
  from upload_part_idle[OF this, of cfg w s] True show ?thesis by auto
next
  case False
  then obtain uf where uf: "uploaded_file inp = Some uf" and b: "upload_button inp"
    by auto
  show ?thesis
  proof (cases "upload_completes w inp")
    case True
    from upload_part_completes[OF uf b True, of cfg s] uf b True show ?thesis by auto
  next
    case False
    from upload_part_fails[OF uf b False, of cfg s] uf b False show ?thesis by auto
  qed
qed


lemma statements_append: "statements (a @ b) = statements a @ statements b"
  by (induction a rule: statements.induct) auto

lemma statements_no_sql: "\<not> list_ex is_sql t \<Longrightarrow> statements t = []"
  by (induction t rule: statements.induct) auto

lemma upload_section_summary:
  "\<exists>s' t u. upload_section cfg w inp s = (s', t, u)
     \<and> volume_check_success s' = volume_check_success s
     \<and> file_upload s' =
         (if uploaded_file inp \<noteq> None \<and> upload_button inp
          then Some (upload_completes w inp)
          else (case file_upload s of None \<Rightarrow> Some False | Some b \<Rightarrow> Some b))
     \<and> upload_details s' =
         (if uploaded_file inp \<noteq> None \<and> upload_button inp \<and> upload_completes w inp
          then details_of inp else upload_details s)
     \<and> (list_ex is_upload t \<longrightarrow> uploaded_file inp \<noteq> None \<and> upload_button inp)
     \<and> (uploaded_file inp \<noteq> None \<and> upload_button inp \<and> upload_completes w inp
          \<longrightarrow> list_ex is_upload t)
     \<and> reaches_upload t u
     \<and> (reaches_table_creation t u \<longleftrightarrow> file_upload s' = Some True)
     \<and> (\<forall>d. upload_details s' = Some d \<longrightarrow>
           set (statements t) \<subseteq>
             {query1 (d_catalog d) (d_schema d) (strip (table_name_input inp)),
              query2 (d_catalog d) (d_schema d) (d_volume_name d) (d_file_name d)
                (strip (table_name_input inp))})"
proof -
  obtain s1 t1 u1 where p: "upload_part cfg w inp s = (s1, t1, u1)"
    and s1: "s1 = (if uploaded_file inp \<noteq> None \<and> upload_button inp
             then (if upload_completes w inp
                   then s\<lparr>file_upload := Some True, upload_details := details_of inp\<rparr>
                   else s\<lparr>file_upload := Some False\<rparr>)
             else s)"
    and t1: "list_ex is_upload t1 \<longrightarrow> uploaded_file inp \<noteq> None \<and> upload_button inp"
      "uploaded_file inp \<noteq> None \<and> upload_button inp \<and> upload_completes w inp
          \<longrightarrow> list_ex is_upload t1"
      "\<not> list_ex is_sql t1"
    and u1: "list_ex is_upload_widget u1" "\<not> list_ex is_table_widget u1"
    using upload_part_summary[of cfg w inp s] by blast
  obtain s2 t2 u2 where ts: "table_section cfg w inp s1 = (s2, t2, u2)"
    by (cases "table_section cfg w inp s1") auto
  have s2: "s2 = (case file_upload s1 of None \<Rightarrow> s1\<lparr>file_upload := Some False\<rparr> | Some b \<Rightarrow> s1)"
    using table_section_state[of cfg w inp s1] ts by simp
  have r2: "reaches_table_creation t2 u2 \<longleftrightarrow> file_upload s1 = Some True"
    using table_section_reaches[of cfg w inp s1] ts by simp
  have n2: "\<not> reaches_upload t2 u2"
    using table_section_no_upload[of cfg w inp s1] ts by simp
  have st2: "upload_details s1 = Some d \<Longrightarrow>
           set (statements t2) \<subseteq>
             {query1 (d_catalog d) (d_schema d) (strip (table_name_input inp)),
              query2 (d_catalog d) (d_schema d) (d_volume_name d) (d_file_name d)
                (strip (table_name_input inp))}" for d
    using table_section_statements[of s1 d cfg w inp] ts by simp
  have us: "upload_section cfg w inp s = (s2, t1 @ t2, u1 @ u2)"
    by (simp add: upload_section_def p ts)
  have a1: "volume_check_success s2 = volume_check_success s"
    by (simp add: s2 s1 split: option.splits)
  have a2: "file_upload s2 =
         (if uploaded_file inp \<noteq> None \<and> upload_button inp
          then Some (upload_completes w inp)
          else (case file_upload s of None \<Rightarrow> Some False | Some b \<Rightarrow> Some b))"
    by (simp add: s2 s1 split: option.splits)
  have a3: "upload_details s2 =
         (if uploaded_file inp \<noteq> None \<and> upload_button inp \<and> upload_completes w inp
          then details_of inp else upload_details s)"
    by (simp add: s2 s1 split: option.splits)
  have d12: "upload_details s2 = upload_details s1"
    by (simp add: s2 split: option.splits)
  have f12: "file_upload s2 = Some True \<longleftrightarrow> file_upload s1 = Some True"
    by (simp add: s2 split: option.splits)
  have a4: "list_ex is_upload (t1 @ t2) \<longrightarrow> uploaded_file inp \<noteq> None \<and> upload_button inp"
    using t1(1) n2 by (auto simp: reaches_upload_def)
  have a5: "uploaded_file inp \<noteq> None \<and> upload_button inp \<and> upload_completes w inp
          \<longrightarrow> list_ex is_upload (t1 @ t2)"
    using t1(2) by auto
  have a6: "reaches_upload (t1 @ t2) (u1 @ u2)"
    using u1(1) by (simp add: reaches_upload_def)
  have a7: "reaches_table_creation (t1 @ t2) (u1 @ u2) \<longleftrightarrow> file_upload s2 = Some True"
    using r2 t1(3) u1(2) f12 by (auto simp: reaches_table_creation_def)
  have a8: "\<forall>d. upload_details s2 = Some d \<longrightarrow>
           set (statements (t1 @ t2)) \<subseteq>
             {query1 (d_catalog d) (d_schema d) (strip (table_name_input inp)),
              query2 (d_catalog d) (d_schema d) (d_volume_name d) (d_file_name d)
                (strip (table_name_input inp))}"
    using st2 d12 statements_no_sql[OF t1(3)] by (simp add: statements_append)
  from us a1 a2 a3 a4 a5 a6 a7 a8 show ?thesis by blast
qed

lemma init_flag_fields:
  "volume_check_success (init_flag s) =
     (case volume_check_success s of None \<Rightarrow> Some False | Some b \<Rightarrow> Some b)"
  "file_upload (init_flag s) = file_upload s"
  "upload_details (init_flag s) = upload_details s"
  by (simp_all add: init_flag_def split: option.splits)

lemma check_section_summary:
  "\<exists>s2 t u. check_section w inp s = (s2, t, u)
     \<and> volume_check_success s2 =
         (if check_button inp
          then Some (snd (check_upload_permissions w (strip (upload_volume_path inp)))
                       = validated)
          else volume_check_success s)
     \<and> file_upload s2 = file_upload s \<and> upload_details s2 = upload_details s
     \<and> \<not> list_ex is_upload t \<and> \<not> list_ex is_sql t
     \<and> \<not> list_ex is_upload_widget u \<and> \<not> list_ex is_table_widget u"
proof (cases "check_button inp")
  case False
  then show ?thesis by (simp add: check_section_def)
next
  case True
  obtain s2 t u where h: "check_handler w inp s = (s2, t, u)"
    by (cases "check_handler w inp s") auto
  have s2: "s2 = s\<lparr>volume_check_success :=
         Some (snd (check_upload_permissions w (strip (upload_volume_path inp))) = validated)\<rparr>"
    using check_handler_state[of w inp s] h by simp
  have t: "t = fst (check_upload_permissions w (strip (upload_volume_path inp)))"
    using check_handler_calls[of w inp s] h by simp
  have u: "\<not> list_ex is_upload_widget u" "\<not> list_ex is_table_widget u"
    using check_handler_ui[of w inp s] h by simp_all
  have c: "\<not> list_ex is_upload t" "\<not> list_ex is_sql t"
    using check_calls[of w "strip (upload_volume_path inp)"] unfolding t by simp_all
  have cs: "check_section w inp s = (s2, t, [TextInput, CheckButton] @ u)"
    using True h by (simp add: check_section_def)
  have v: "volume_check_success s2 =
         Some (snd (check_upload_permissions w (strip (upload_volume_path inp))) = validated)"
    and f: "file_upload s2 = file_upload s" and d: "upload_details s2 = upload_details s"
    by (simp_all add: s2)
  have u': "\<not> list_ex is_upload_widget ([TextInput, CheckButton] @ u)"
    "\<not> list_ex is_table_widget ([TextInput, CheckButton] @ u)"
    using u by simp_all
  from cs v f d c u' True show ?thesis by auto
qed


lemma rerun_closed:
  assumes "check_section w inp (init_flag s) = (s2, t2, u2)"
    and "volume_check_success s2 \<noteq> Some True"
  shows "rerun cfg w inp s = (s2, t2, u2)"
  using assms by (simp add: rerun_def)

lemma rerun_open:
  assumes "check_section w inp (init_flag s) = (s2, t2, u2)"
    and "volume_check_success s2 = Some True"
    and "upload_section cfg w inp s2 = (s3, t3, u3)"
  shows "rerun cfg w inp s = (s3, t2 @ t3, u2 @ u3)"
  using assms by (simp add: rerun_def)

lemma rerun_summary:
  "\<exists>s' t u. rerun cfg w inp s = (s', t, u)
     \<and> volume_check_success s' =
         (if check_button inp
          then Some (snd (check_upload_permissions w (strip (upload_volume_path inp)))
                       = validated)
          else (case volume_check_success s of None \<Rightarrow> Some False | Some b \<Rightarrow> Some b))
     \<and> file_upload s' =
         (if volume_check_success s' = Some True
          then (if uploaded_file inp \<noteq> None \<and> upload_button inp
                then Some (upload_completes w inp)
                else (case file_upload s of None \<Rightarrow> Some False | Some b \<Rightarrow> Some b))
          else file_upload s)
     \<and> upload_details s' =
         (if volume_check_success s' = Some True \<and> uploaded_file inp \<noteq> None
             \<and> upload_button inp \<and> upload_completes w inp
          then details_of inp else upload_details s)
     \<and> (list_ex is_upload t \<longrightarrow>
          volume_check_success s' = Some True \<and> uploaded_file inp \<noteq> None \<and> upload_button inp)
     \<and> (volume_check_success s' = Some True \<and> uploaded_file inp \<noteq> None
          \<and> upload_button inp \<and> upload_completes w inp \<longrightarrow> list_ex is_upload t)
     \<and> (reaches_upload t u \<longleftrightarrow> volume_check_success s' = Some True)
     \<and> (reaches_table_creation t u \<longleftrightarrow>
          volume_check_success s' = Some True \<and> file_upload s' = Some True)
     \<and> (\<forall>d. upload_details s' = Some d \<longrightarrow>
           set (statements t) \<subseteq>
             {query1 (d_catalog d) (d_schema d) (strip (table_name_input inp)),
              query2 (d_catalog d) (d_schema d) (d_volume_name d) (d_file_name d)
                (strip (table_name_input inp))})"
proof -
  obtain s2 t2 u2 where part: "check_section w inp (init_flag s) = (s2, t2, u2)"
    and v2': "volume_check_success s2 =
         (if check_button inp
          then Some (snd (check_upload_permissions w (strip (upload_volume_path inp)))
                       = validated)
          else volume_check_success (init_flag s))"
    and f2': "file_upload s2 = file_upload (init_flag s)"
    and d2': "upload_details s2 = upload_details (init_flag s)"
    and t2: "\<not> list_ex is_upload t2" "\<not> list_ex is_sql t2"
    and u2: "\<not> list_ex is_upload_widget u2" "\<not> list_ex is_table_widget u2"
    using check_section_summary[of w inp "init_flag s"] by blast
  have v2: "volume_check_success s2 =
         (if check_button inp
          then Some (snd (check_upload_permissions w (strip (upload_volume_path inp)))
                       = validated)
          else (case volume_check_success s of None \<Rightarrow> Some False | Some b \<Rightarrow> Some b))"
    using v2' by (simp only: init_flag_fields)
  have f2: "file_upload s2 = file_upload s" using f2' by (simp only: init_flag_fields)
  have d2: "upload_details s2 = upload_details s" using d2' by (simp only: init_flag_fields)
  show ?thesis
  proof (cases "volume_check_success s2 = Some True")
    case False
    have rr: "rerun cfg w inp s = (s2, t2, u2)"
      using rerun_closed[OF part False] .
    have c1: "\<not> reaches_upload t2 u2" using t2 u2 by (simp add: reaches_upload_def)
    have c2: "\<not> reaches_table_creation t2 u2"
      using t2 u2 by (simp add: reaches_table_creation_def)
    have c3: "statements t2 = []" using statements_no_sql[OF t2(2)] .
    show ?thesis
      apply (rule exI[of _ s2], rule exI[of _ t2], rule exI[of _ u2])
      using rr False v2 f2 d2 t2(1) c1 c2 c3 by simp
  next
    case True
    obtain s3 t3 u3 where us: "upload_section cfg w inp s2 = (s3, t3, u3)"
      and v3: "volume_check_success s3 = volume_check_success s2"
      and f3: "file_upload s3 =
         (if uploaded_file inp \<noteq> None \<and> upload_button inp
          then Some (upload_completes w inp)
          else (case file_upload s2 of None \<Rightarrow> Some False | Some b \<Rightarrow> Some b))"
      and d3: "upload_details s3 =
         (if uploaded_file inp \<noteq> None \<and> upload_button inp \<and> upload_completes w inp
          then details_of inp else upload_details s2)"
      and c3: "list_ex is_upload t3 \<longrightarrow> uploaded_file inp \<noteq> None \<and> upload_button inp"
        "uploaded_file inp \<noteq> None \<and> upload_button inp \<and> upload_completes w inp
          \<longrightarrow> list_ex is_upload t3"
      and ru3: "reaches_upload t3 u3"
      and rt3: "reaches_table_creation t3 u3 \<longleftrightarrow> file_upload s3 = Some True"
      and st3: "\<forall>d. upload_details s3 = Some d \<longrightarrow>
           set (statements t3) \<subseteq>
             {query1 (d_catalog d) (d_schema d) (strip (table_name_input inp)),
              query2 (d_catalog d) (d_schema d) (d_volume_name d) (d_file_name d)
                (strip (table_name_input inp))}"
      using upload_section_summary[of cfg w inp s2] by blast
    have rr: "rerun cfg w inp s = (s3, t2 @ t3, u2 @ u3)"
      using rerun_open[OF part True us] .
    have b1: "volume_check_success s3 = Some True" using v3 True by simp
    have e1: "volume_check_success s3 =
         (if check_button inp
          then Some (snd (check_upload_permissions w (strip (upload_volume_path inp)))
                       = validated)
          else (case volume_check_success s of None \<Rightarrow> Some False | Some b \<Rightarrow> Some b))"
      using v3 v2 by simp
    have e2: "file_upload s3 =
         (if volume_check_success s3 = Some True
          then (if uploaded_file inp \<noteq> None \<and> upload_button inp
                then Some (upload_completes w inp)
                else (case file_upload s of None \<Rightarrow> Some False | Some b \<Rightarrow> Some b))
          else file_upload s)"
      using f3 b1 by (simp only: f2 if_True simp_thms)
    have e3: "upload_details s3 =
         (if volume_check_success s3 = Some True \<and> uploaded_file inp \<noteq> None
             \<and> upload_button inp \<and> upload_completes w inp
          then details_of inp else upload_details s)"
      using d3 b1 by (simp only: d2 simp_thms)
    have b4: "list_ex is_upload (t2 @ t3) \<longleftrightarrow> list_ex is_upload t3"
      using t2(1) by simp
    have e4: "list_ex is_upload (t2 @ t3) \<longrightarrow>
          volume_check_success s3 = Some True \<and> uploaded_file inp \<noteq> None \<and> upload_button inp"
      using c3(1) b1 b4 by blast
    have e5: "volume_check_success s3 = Some True \<and> uploaded_file inp \<noteq> None
          \<and> upload_button inp \<and> upload_completes w inp \<longrightarrow> list_ex is_upload (t2 @ t3)"
      using c3(2) b4 by blast
    have e6: "reaches_upload (t2 @ t3) (u2 @ u3) \<longleftrightarrow> volume_check_success s3 = Some True"
      using ru3 b1 by (auto simp: reaches_upload_def)
    have e7: "reaches_table_creation (t2 @ t3) (u2 @ u3) \<longleftrightarrow>
          volume_check_success s3 = Some True \<and> file_upload s3 = Some True"
      using rt3 t2(2) u2(2) b1 by (auto simp: reaches_table_creation_def)
    have b5: "statements (t2 @ t3) = statements t3"
      using statements_no_sql[OF t2(2)] by (simp add: statements_append)
    have e8: "\<forall>d. upload_details s3 = Some d \<longrightarrow>
           set (statements (t2 @ t3)) \<subseteq>
             {query1 (d_catalog d) (d_schema d) (strip (table_name_input inp)),
              query2 (d_catalog d) (d_schema d) (d_volume_name d) (d_file_name d)
                (strip (table_name_input inp))}"
      using st3 unfolding b5 .
    from rr e1 e2 e3 e4 e5 e6 e7 e8 show ?thesis by blast
  qed
qed

text \<open>The facts of the summary, one by one, on the components of the result.\<close>

lemma rerun_flag:
  "volume_check_success (fst (rerun cfg w inp s)) =
     (if check_button inp
      then Some (snd (check_upload_permissions w (strip (upload_volume_path inp))) = validated)
      else (case volume_check_success s of None \<Rightarrow> Some False | Some b \<Rightarrow> Some b))"
  using rerun_summary[of cfg w inp s] by auto


lemma rerun_reaches_table:
  "reaches_table_creation (fst (snd (rerun cfg w inp s))) (snd (snd (rerun cfg w inp s)))
     \<longleftrightarrow> volume_check_success (fst (rerun cfg w inp s)) = Some True
          \<and> file_upload (fst (rerun cfg w inp s)) = Some True"
  using rerun_summary[of cfg w inp s] by auto

lemma rerun_file_upload:
  "file_upload (fst (rerun cfg w inp s)) =
     (if volume_check_success (fst (rerun cfg w inp s)) = Some True
      then (if uploaded_file inp \<noteq> None \<and> upload_button inp
            then Some (upload_completes w inp)
            else (case file_upload s of None \<Rightarrow> Some False | Some b \<Rightarrow> Some b))
      else file_upload s)"
  using rerun_summary[of cfg w inp s] by auto

lemma rerun_upload_details:
  "upload_details (fst (rerun cfg w inp s)) =
     (if volume_check_success (fst (rerun cfg w inp s)) = Some True
         \<and> uploaded_file inp \<noteq> None \<and> upload_button inp \<and> upload_completes w inp
      then details_of inp else upload_details s)"
  using rerun_summary[of cfg w inp s] by auto

lemma rerun_upload_called:
  "volume_check_success (fst (rerun cfg w inp s)) = Some True \<Longrightarrow>
   uploaded_file inp \<noteq> None \<Longrightarrow> upload_button inp \<Longrightarrow> upload_completes w inp \<Longrightarrow>
   list_ex is_upload (fst (snd (rerun cfg w inp s)))"
  using rerun_summary[of cfg w inp s] by auto

lemma rerun_statements:
  "upload_details (fst (rerun cfg w inp s)) = Some d \<Longrightarrow>
   set (statements (fst (snd (rerun cfg w inp s)))) \<subseteq>
     {query1 (d_catalog d) (d_schema d) (strip (table_name_input inp)),
      query2 (d_catalog d) (d_schema d) (d_volume_name d) (d_file_name d)
        (strip (table_name_input inp))}"
  using rerun_summary[of cfg w inp s] by auto


section \<open>Sessions\<close>

lemma session_length: "length (session cfg s steps) = length steps"
  by (induction steps arbitrary: s) (auto simp: Let_def)

lemma session_nth_0: "session cfg s ((w, inp) # rest) ! 0 = rerun cfg w inp s"
  by (simp add: Let_def)

lemma session_nth_Suc:
  "session cfg s ((w, inp) # rest) ! Suc k = session cfg (fst (rerun cfg w inp s)) rest ! k"
  by (simp add: Let_def)

text \<open>Every entry of a session is a run of the script on the inputs of its step.\<close>

lemma session_nth_rerun:
  "k < length steps \<Longrightarrow>
   \<exists>s0. session cfg s steps ! k = rerun cfg (fst (steps ! k)) (snd (steps ! k)) s0"
proof (induction steps arbitrary: s k)
  case Nil
  then show ?case by simp
next
  case (Cons step rest)
  obtain w inp where step: "step = (w, inp)" by (cases step)
  show ?case
  proof (cases k)
    case 0
    then show ?thesis by (auto simp: step Let_def)
  next
    case (Suc k')
    with Cons.prems have "k' < length rest" by simp
    from Cons.IH[OF this, of "fst (rerun cfg w inp s)"] Suc show ?thesis
      by (auto simp: step Let_def)
  qed
qed




lemma sample_widgets:
  "check_button (press_check p)" "\<not> check_button (press_upload p)"
  "\<not> check_button (press_create p tn)"
  "uploaded_file (press_upload p) = Some sample_file" "upload_button (press_upload p)"
  "upload_volume_path (press_upload p) = p" "upload_volume_path (press_check p) = p"
  "\<not> upload_button (press_check p)" "\<not> upload_button (press_create p tn)"
  "table_name_input (press_create p tn) = tn" "create_button (press_create p tn)"
  by (simp_all add: press_check_def press_upload_def press_create_def idle_def)

lemma check_then_upload_flags:
  "volume_check_success (fst (session cfg initial_state check_then_upload ! 0)) = Some True"
  "volume_check_success (fst (session cfg initial_state check_then_upload ! 1)) = Some True"
proof -
  show a: "volume_check_success (fst (session cfg initial_state check_then_upload ! 0)) = Some True"
    unfolding check_then_upload_def session_nth_0
    by (simp add: rerun_flag sample_widgets sample_check_passes)
  have "session cfg initial_state check_then_upload ! 1 =
          rerun cfg (sample_remote [''WRITE_VOLUME'']) (press_upload sample_path)
            (fst (session cfg initial_state check_then_upload ! 0))"
    by (simp add: check_then_upload_def Let_def)
  then show "volume_check_success (fst (session cfg initial_state check_then_upload ! 1)) = Some True"
    using a by (simp add: rerun_flag sample_widgets)
qed





lemma upload_completes_details: "upload_completes w inp \<Longrightarrow> \<exists>d. details_of inp = Some d"
  by (auto simp: upload_completes_def details_of_def split: option.splits list.splits)

lemma rerun_upload_step:
  assumes "file_upload (fst (rerun cfg w inp s)) = Some True"
  shows "(list_ex is_upload (fst (snd (rerun cfg w inp s))) \<and> upload_completes w inp
            \<and> upload_details (fst (rerun cfg w inp s)) = details_of inp)
         \<or> (file_upload s = Some True
            \<and> upload_details (fst (rerun cfg w inp s)) = upload_details s)"
proof (cases "volume_check_success (fst (rerun cfg w inp s)) = Some True
               \<and> uploaded_file inp \<noteq> None \<and> upload_button inp")
  case True
  with assms have c: "upload_completes w inp"
    using rerun_file_upload[of cfg w inp s] by simp
  with True have "list_ex is_upload (fst (snd (rerun cfg w inp s)))"
    using rerun_upload_called[of cfg w inp s] by simp
  moreover from True c have "upload_details (fst (rerun cfg w inp s)) = details_of inp"
    using rerun_upload_details[of cfg w inp s] by simp
  ultimately show ?thesis using c by blast
next
  case False
  then have "upload_details (fst (rerun cfg w inp s)) = upload_details s"
    using rerun_upload_details[of cfg w inp s] by auto
  moreover from False assms have "file_upload s = Some True"
    using rerun_file_upload[of cfg w inp s] by (auto split: if_splits option.splits)
  ultimately show ?thesis by blast
qed

text \<open>
  The upload flag is true after a run only if it was true at the start of the session
  and no upload was recorded since, or a run up to this one completed a transfer and
  its details are the recorded ones.
\<close>

lemma session_upload:
  "k < length steps \<Longrightarrow>
   file_upload (fst (session cfg s steps ! k)) = Some True \<Longrightarrow>
   (file_upload s = Some True
      \<and> upload_details (fst (session cfg s steps ! k)) = upload_details s)
   \<or> (\<exists>j \<le> k. list_ex is_upload (fst (snd (session cfg s steps ! j)))
          \<and> upload_completes (fst (steps ! j)) (snd (steps ! j))
          \<and> upload_details (fst (session cfg s steps ! k)) = details_of (snd (steps ! j)))"
proof (induction steps arbitrary: s k)
  case Nil
  then show ?case by simp
next
  case (Cons step rest)
  obtain w inp where step: "step = (w, inp)" by (cases step)
  let ?s1 = "fst (rerun cfg w inp s)"
  have zero: "session cfg s (step # rest) ! 0 = rerun cfg w inp s"
    by (simp add: step Let_def)
  show ?case
  proof (cases k)
    case 0
    with Cons.prems(2) have "file_upload ?s1 = Some True"
      by (simp add: step Let_def)
    from rerun_upload_step[OF this] show ?thesis
    proof
      assume "list_ex is_upload (fst (snd (rerun cfg w inp s))) \<and> upload_completes w inp
            \<and> upload_details ?s1 = details_of inp"
      then have "(0::nat) \<le> k
            \<and> list_ex is_upload (fst (snd (session cfg s (step # rest) ! 0)))
            \<and> upload_completes (fst ((step # rest) ! 0)) (snd ((step # rest) ! 0))
            \<and> upload_details (fst (session cfg s (step # rest) ! k))
                = details_of (snd ((step # rest) ! 0))"
        unfolding 0 zero by (simp add: step)
      then show ?thesis by blast
    next
      assume "file_upload s = Some True \<and> upload_details ?s1 = upload_details s"
      then show ?thesis unfolding 0 zero by simp
    qed
  next
    case (Suc k')
    have nth: "session cfg s (step # rest) ! Suc i = session cfg ?s1 rest ! i" for i
      by (simp add: step Let_def)
    from Cons.prems Suc have k': "k' < length rest"
      and fu: "file_upload (fst (session cfg ?s1 rest ! k')) = Some True"
      by (simp_all add: nth)
    from Cons.IH[OF k' fu] show ?thesis
    proof
      assume a: "file_upload ?s1 = Some True \<and>
                 upload_details (fst (session cfg ?s1 rest ! k')) = upload_details ?s1"
      then have "file_upload ?s1 = Some True" by simp
      from rerun_upload_step[OF this] show ?thesis
      proof
        assume "list_ex is_upload (fst (snd (rerun cfg w inp s))) \<and> upload_completes w inp
            \<and> upload_details ?s1 = details_of inp"
        with a have "(0::nat) \<le> k
            \<and> list_ex is_upload (fst (snd (session cfg s (step # rest) ! 0)))
            \<and> upload_completes (fst ((step # rest) ! 0)) (snd ((step # rest) ! 0))
            \<and> upload_details (fst (session cfg s (step # rest) ! k))
                = details_of (snd ((step # rest) ! 0))"
          unfolding Suc nth zero by (simp add: step)
        then show ?thesis by blast
      next
        assume "file_upload s = Some True \<and> upload_details ?s1 = upload_details s"
        with a show ?thesis unfolding Suc nth by simp
      qed
    next
      assume "\<exists>j\<le>k'. list_ex is_upload (fst (snd (session cfg ?s1 rest ! j)))
          \<and> upload_completes (fst (rest ! j)) (snd (rest ! j))
          \<and> upload_details (fst (session cfg ?s1 rest ! k')) = details_of (snd (rest ! j))"
      then obtain j where "j \<le> k'"
        and "list_ex is_upload (fst (snd (session cfg ?s1 rest ! j)))"
        and "upload_completes (fst (rest ! j)) (snd (rest ! j))"
        and "upload_details (fst (session cfg ?s1 rest ! k')) = details_of (snd (rest ! j))"
        by blast
      then have "Suc j \<le> k
          \<and> list_ex is_upload (fst (snd (session cfg s (step # rest) ! Suc j)))
          \<and> upload_completes (fst ((step # rest) ! Suc j)) (snd ((step # rest) ! Suc j))
          \<and> upload_details (fst (session cfg s (step # rest) ! k))
              = details_of (snd ((step # rest) ! Suc j))"
        unfolding Suc nth by simp
      then show ?thesis by blast
    qed
  qed
qed

text \<open>
  C2. In every session, a run reaches table creation (renders its widgets or touches
  the warehouse) only with the flag \<open>file_upload\<close> true, and then some run up to it
  called \<^verbatim>\<open>w.files.upload\<close>, the call returned, and the details that run recorded are
  the ones in the session state: every statement the run issues is one of the two
  statements built from them and the stripped table name.
\<close>

theorem table_creation_after_upload:
  assumes "k < length steps"
    and "session cfg initial_state steps ! k = (s', t, u)"
    and "reaches_table_creation t u"
  shows "file_upload s' = Some True
       \<and> (\<exists>j \<le> k. \<exists>d.
             list_ex is_upload (fst (snd (session cfg initial_state steps ! j)))
             \<and> upload_completes (fst (steps ! j)) (snd (steps ! j))
             \<and> details_of (snd (steps ! j)) = Some d
             \<and> upload_details s' = Some d
             \<and> set (statements t) \<subseteq>
                 {query1 (d_catalog d) (d_schema d) (strip (table_name_input (snd (steps ! k)))),
                  query2 (d_catalog d) (d_schema d) (d_volume_name d) (d_file_name d)
                    (strip (table_name_input (snd (steps ! k))))})"
proof -
  from session_nth_rerun[OF assms(1), of cfg initial_state] obtain s0 where
    r: "session cfg initial_state steps ! k = rerun cfg (fst (steps ! k)) (snd (steps ! k)) s0"
    by blast
  from rerun_reaches_table[of cfg "fst (steps ! k)" "snd (steps ! k)" s0] assms(2,3)
  have flag: "file_upload s' = Some True"
    unfolding r[symmetric] by simp
  then have "file_upload (fst (session cfg initial_state steps ! k)) = Some True"
    using assms(2) by simp
  from session_upload[OF assms(1) this] obtain j where j: "j \<le> k"
    and up: "list_ex is_upload (fst (snd (session cfg initial_state steps ! j)))"
    and ok: "upload_completes (fst (steps ! j)) (snd (steps ! j))"
    and det: "upload_details s' = details_of (snd (steps ! j))"
    using assms(2) by (auto simp: initial_state_def)
  from upload_completes_details[OF ok] obtain d where d: "details_of (snd (steps ! j)) = Some d"
    by blast
  with det have sd: "upload_details s' = Some d" by simp
  have "upload_details (fst (rerun cfg (fst (steps ! k)) (snd (steps ! k)) s0)) = Some d"
    using sd assms(2) unfolding r[symmetric] by simp
  from rerun_statements[OF this] have "set (statements t) \<subseteq>
                 {query1 (d_catalog d) (d_schema d) (strip (table_name_input (snd (steps ! k)))),
                  query2 (d_catalog d) (d_schema d) (d_volume_name d) (d_file_name d)
                    (strip (table_name_input (snd (steps ! k))))}"
    using assms(2) unfolding r[symmetric] by simp
  with flag j up ok d sd show ?thesis by blast
qed


lemma sample_segments:
  "segments (press_upload sample_path) = [''main'', ''marketing'', ''raw_files'']"
  "segments (press_create sample_path tn) = [''main'', ''marketing'', ''raw_files'']"
  by (simp_all add: segments_def press_upload_def press_create_def idle_def sample_path_def
      strip_eval Let_def)

lemma sample_upload_completes:
  "upload_completes (sample_remote privs) (press_upload sample_path)"
  "\<not> upload_completes w (press_create p tn)"
  "\<not> upload_completes w (press_check p)"
  "\<not> upload_completes refusing_upload (press_upload sample_path)"
  by (simp_all add: upload_completes_def sample_segments sample_widgets sample_remote_def
      refusing_upload_def press_create_def press_check_def idle_def)

text \<open>The sample session: the state after the check and after the upload.\<close>

lemma check_then_upload_file_upload:
  "file_upload (fst (session cfg initial_state check_then_upload ! 1)) = Some True"
proof -
  have "session cfg initial_state check_then_upload ! 1 =
          rerun cfg (sample_remote [''WRITE_VOLUME'']) (press_upload sample_path)
            (fst (session cfg initial_state check_then_upload ! 0))"
    by (simp add: check_then_upload_def Let_def)
  then show ?thesis
    using check_then_upload_flags(2)[of cfg]
    by (simp add: rerun_file_upload sample_widgets sample_upload_completes)
qed

lemma third_run:
  "session cfg initial_state (check_then_upload @ [(w, inp)]) ! 2 =
     rerun cfg w inp (fst (session cfg initial_state check_then_upload ! 1))"
  by (simp add: check_then_upload_def Let_def numeral_2_eq_2)

theorem table_creation_after_upload_witness:
  "reaches_table_creation
     (fst (snd (session sample_config initial_state check_upload_create ! 2)))
     (snd (snd (session sample_config initial_state check_upload_create ! 2)))
   \<and> file_upload (fst (session sample_config initial_state check_upload_create ! 2)) = Some True
   \<and> upload_completes (fst (check_upload_create ! 1)) (snd (check_upload_create ! 1))"
proof -
  let ?r = "session sample_config initial_state check_upload_create ! 2"
  have k: "(2::nat) < length check_upload_create"
    by (simp add: check_upload_create_def check_then_upload_def)
  have r: "?r = (fst ?r, fst (snd ?r), snd (snd ?r))" by simp
  have run: "?r = rerun sample_config (sample_remote [''WRITE_VOLUME''])
                    (press_create sample_path ''test_table'')
                    (fst (session sample_config initial_state check_then_upload ! 1))"
    unfolding check_upload_create_def by (rule third_run)
  have flag: "volume_check_success (fst ?r) = Some True"
    unfolding run using check_then_upload_flags(2)[of sample_config]
    by (simp add: rerun_flag sample_widgets)
  have fu: "file_upload (fst ?r) = Some True"
    using flag unfolding run
    using check_then_upload_file_upload[of sample_config]
    by (simp add: rerun_file_upload sample_widgets)
  have reach: "reaches_table_creation (fst (snd ?r)) (snd (snd ?r))"
    using flag fu unfolding run by (simp add: rerun_reaches_table)
  have c: "upload_completes (fst (check_upload_create ! 1)) (snd (check_upload_create ! 1))"
    by (simp add: check_upload_create_def check_then_upload_def sample_upload_completes)
  from table_creation_after_upload [OF k r reach] reach c show ?thesis by blast
qed

section \<open>A failed upload, and a new check\<close>

lemma upload_raises_not_completes:
  assumes "uploaded_file inp = Some uf" and "snd (upload_body cfg w inp uf s) = Inl e"
  shows "\<not> upload_completes w inp"
proof -
  from assms(2) have "\<exists>e. snd (upload_body cfg w inp uf s) = Inl e" by blast
  then show ?thesis
    unfolding upload_body_raises_iff by (simp add: upload_completes_def assms(1))
qed

lemma no_table_without_upload:
  assumes "file_upload s = Some False" and "\<not> upload_completes w inp"
  shows "\<not> reaches_table_creation (fst (snd (rerun cfg w inp s))) (snd (snd (rerun cfg w inp s)))"
proof -
  have "file_upload (fst (rerun cfg w inp s)) \<noteq> Some True"
    using assms by (simp add: rerun_file_upload[of cfg w inp s])
  then show ?thesis by (simp add: rerun_reaches_table)
qed

text \<open>
  C9. When a run reaches the upload step, the upload button is pressed and the upload
  attempt raises, the run leaves \<open>file_upload\<close> false, whatever it was before, and the
  recorded upload details as they were. That run does not reach table creation, and
  neither does any run that follows it without completing a transfer.
\<close>

theorem failed_upload_revokes:
  assumes "volume_check_success (fst (rerun cfg w inp s)) = Some True"
    and "uploaded_file inp = Some uf" and "upload_button inp"
    and "snd (upload_body cfg w inp uf (fst (check_section w inp (init_flag s)))) = Inl e"
  shows "file_upload (fst (rerun cfg w inp s)) = Some False
       \<and> upload_details (fst (rerun cfg w inp s)) = upload_details s
       \<and> \<not> reaches_table_creation (fst (snd (rerun cfg w inp s)))
             (snd (snd (rerun cfg w inp s)))
       \<and> (\<forall>cfg' w' inp'. \<not> upload_completes w' inp' \<longrightarrow>
             \<not> reaches_table_creation
                 (fst (snd (rerun cfg' w' inp' (fst (rerun cfg w inp s)))))
                 (snd (snd (rerun cfg' w' inp' (fst (rerun cfg w inp s))))))"
proof -
  have nc: "\<not> upload_completes w inp"
    using upload_raises_not_completes[OF assms(2,4)] .
  have fu: "file_upload (fst (rerun cfg w inp s)) = Some False"
    using assms(1,2,3) nc by (simp add: rerun_file_upload[of cfg w inp s])
  have det: "upload_details (fst (rerun cfg w inp s)) = upload_details s"
    using nc by (simp add: rerun_upload_details[of cfg w inp s])
  have now: "\<not> reaches_table_creation (fst (snd (rerun cfg w inp s)))
             (snd (snd (rerun cfg w inp s)))"
    using fu by (simp add: rerun_reaches_table)
  from fu det now no_table_without_upload[OF fu] show ?thesis by blast
qed

theorem failed_upload_revokes_witness:
  "file_upload uploaded_state = Some True
   \<and> file_upload (fst (rerun sample_config refusing_upload (press_upload sample_path)
                         uploaded_state)) = Some False
   \<and> upload_details (fst (rerun sample_config refusing_upload (press_upload sample_path)
                         uploaded_state)) = upload_details uploaded_state
   \<and> \<not> reaches_table_creation
         (fst (snd (rerun sample_config (sample_remote [''WRITE_VOLUME''])
                      (press_create sample_path ''test_table'')
                      (fst (rerun sample_config refusing_upload (press_upload sample_path)
                              uploaded_state)))))
         (snd (snd (rerun sample_config (sample_remote [''WRITE_VOLUME''])
                      (press_create sample_path ''test_table'')
                      (fst (rerun sample_config refusing_upload (press_upload sample_path)
                              uploaded_state)))))"
proof -
  let ?inp = "press_upload sample_path"
  have a1: "volume_check_success (fst (rerun sample_config refusing_upload ?inp uploaded_state))
              = Some True"
    by (simp add: rerun_flag sample_widgets uploaded_state_def)
  have a2: "uploaded_file ?inp = Some sample_file" and a3: "upload_button ?inp"
    by (simp_all add: sample_widgets)
  have a4: "snd (upload_body sample_config refusing_upload ?inp sample_file
                   (fst (check_section refusing_upload ?inp (init_flag uploaded_state))))
              = Inl (RemoteError ''transfer refused'')"
    using sample_segments(1)
    by (simp add: upload_body_def segments_def[symmetric] bind_def lift_def unpack3_def
        remote_call_def Let_def refusing_upload_def)
  have b: "file_upload uploaded_state = Some True"
    by (simp add: uploaded_state_def)
  have c: "\<not> upload_completes (sample_remote [''WRITE_VOLUME''])
               (press_create sample_path ''test_table'')"
    by (rule sample_upload_completes)
  from failed_upload_revokes [OF a1 a2 a3 a4] b c show ?thesis by blast
qed

text \<open>
  C8, as amended. The check handler sets the permission flag from the new result and
  leaves the upload flag and the recorded upload details as they were.
\<close>

theorem check_leaves_upload_state:
  "volume_check_success (fst (check_handler w inp s)) =
     Some (snd (check_upload_permissions w (strip (upload_volume_path inp))) = validated)
   \<and> file_upload (fst (check_handler w inp s)) = file_upload s
   \<and> upload_details (fst (check_handler w inp s)) = upload_details s"
  by (simp add: check_handler_state)

text \<open>
  C8 as stated says the recorded upload success does not survive a new check. In the
  sample session the upload succeeds in the second run and the check button is pressed
  again in the third: \<open>file_upload\<close> is still true after it, and that run renders the
  table-creation widgets. After a denied check on the same state it is still true too.
\<close>

theorem upload_success_survives_check_counterexample:
  "check_button (snd (check_upload_check ! 2))
   \<and> file_upload (fst (session sample_config initial_state check_upload_check ! 2)) = Some True
   \<and> reaches_table_creation
       (fst (snd (session sample_config initial_state check_upload_check ! 2)))
       (snd (snd (session sample_config initial_state check_upload_check ! 2)))
   \<and> file_upload (fst (check_handler (sample_remote [''READ_VOLUME''])
                         (press_check sample_path) uploaded_state)) = Some True"
proof -
  let ?r = "session sample_config initial_state check_upload_check ! 2"
  have run: "?r = rerun sample_config (sample_remote [''WRITE_VOLUME''])
                    (press_check sample_path)
                    (fst (session sample_config initial_state check_then_upload ! 1))"
    unfolding check_upload_check_def by (rule third_run)
  have flag: "volume_check_success (fst ?r) = Some True"
    unfolding run
    by (simp add: rerun_flag sample_widgets sample_check_passes)
  have fu: "file_upload (fst ?r) = Some True"
    using flag unfolding run
    using check_then_upload_file_upload[of sample_config]
    by (simp add: rerun_file_upload sample_widgets)
  have reach: "reaches_table_creation (fst (snd ?r)) (snd (snd ?r))"
    using flag fu unfolding run by (simp add: rerun_reaches_table)
  have b: "check_button (snd (check_upload_check ! 2))"
    by (simp add: check_upload_check_def check_then_upload_def sample_widgets numeral_2_eq_2)
  have h: "file_upload (fst (check_handler (sample_remote [''READ_VOLUME''])
                         (press_check sample_path) uploaded_state)) = Some True"
    by (simp add: check_handler_state uploaded_state_def)
  from b fu reach h show ?thesis by blast
qed

end
